theory Spec2Isabelle
  imports Main "HOL-Library.Word"
begin

unbundle bit_operations_syntax

section \<open>B53 register access through MII registers (b53_mdio.c)\<close>

subsection \<open>The MII bus\<close>

text \<open>
  The driver reaches the switch through \<open>mdiobus_read\<close> and \<open>mdiobus_write\<close>, which
  belong to the kernel's PHY layer and call the bus driver's \<open>read\<close> and \<open>write\<close>
  callbacks. The callbacks are taken as a parameter: a pair of functions over the
  hardware state \<open>'h\<close>, each returning the C \<open>int\<close> of the call and the new hardware
  state. A C \<open>int\<close> is modelled as \<open>int\<close>; every conversion to an unsigned type is written
  with \<open>word_of_int\<close>, which cuts the two's complement representation to the width of
  the target and therefore agrees with C on every value an \<open>int\<close> can hold.

  Every transaction is appended to a log kept beside the hardware state, so that the
  order and the content of the bus traffic can be stated.
\<close>

datatype mii_txn =
    MdioWrite (txn_reg: int) (txn_val: "16 word") (txn_ret: int)
  | MdioRead (txn_reg: int) (txn_ret: int)

record 'h mii_ops =
  mii_read :: "'h \<Rightarrow> int \<Rightarrow> int \<Rightarrow> int \<times> 'h"
  mii_write :: "'h \<Rightarrow> int \<Rightarrow> int \<Rightarrow> 16 word \<Rightarrow> int \<times> 'h"

record 'h mii_bus =
  mii_hw :: 'h
  mii_log :: "mii_txn list"

definition mdiobus_read :: "'h mii_ops \<Rightarrow> 'h mii_bus \<Rightarrow> int \<Rightarrow> int \<Rightarrow> int \<times> 'h mii_bus" where
  "mdiobus_read T bus addr regnum =
     (case mii_read T (mii_hw bus) addr regnum of
        (ret, h) \<Rightarrow> (ret, \<lparr>mii_hw = h, mii_log = mii_log bus @ [MdioRead regnum ret]\<rparr>))"

definition mdiobus_write ::
  "'h mii_ops \<Rightarrow> 'h mii_bus \<Rightarrow> int \<Rightarrow> int \<Rightarrow> 16 word \<Rightarrow> int \<times> 'h mii_bus" where
  "mdiobus_write T bus addr regnum val =
     (case mii_write T (mii_hw bus) addr regnum val of
        (ret, h) \<Rightarrow> (ret, \<lparr>mii_hw = h, mii_log = mii_log bus @ [MdioWrite regnum val ret]\<rparr>))"

subsection \<open>Constants of the driver\<close>

definition B53_PSEUDO_PHY :: int where "B53_PSEUDO_PHY = 0x1e"

definition REG_MII_PAGE :: int where "REG_MII_PAGE = 0x10"
definition REG_MII_ADDR :: int where "REG_MII_ADDR = 0x11"
definition REG_MII_DATA0 :: int where "REG_MII_DATA0 = 0x18"
definition REG_MII_DATA1 :: int where "REG_MII_DATA1 = 0x19"
definition REG_MII_DATA2 :: int where "REG_MII_DATA2 = 0x1a"
definition REG_MII_DATA3 :: int where "REG_MII_DATA3 = 0x1b"

definition REG_MII_PAGE_ENABLE :: "16 word" where "REG_MII_PAGE_ENABLE = 1"
definition REG_MII_ADDR_WRITE :: "16 word" where "REG_MII_ADDR_WRITE = 1"
definition REG_MII_ADDR_READ :: "16 word" where "REG_MII_ADDR_READ = 2"

text \<open>The errno \<open>EIO\<close> of the kernel.\<close>

definition EIO :: int where "EIO = 5"

subsection \<open>The device handle\<close>

text \<open>
  Modelled from the spec: \<open>struct b53_device\<close> is declared in \<open>b53_priv.h\<close>, which is
  not among the sources. Of its fields this file uses two: \<open>current_page\<close>, which the
  spec describes as the cached number of the page selected last, 8 bits wide (it is
  compared with and assigned from the \<open>u8 page\<close> argument), and \<open>priv\<close>, the MII bus.
\<close>

record 'h b53_device =
  current_page :: "8 word"
  priv :: "'h mii_bus"

subsection \<open>\<open>b53_mdio_op\<close>\<close>

text \<open>
  The completion loop \<open>for (i = 0; i < 5; ++i)\<close>: one read of the address register per
  round, cut to \<open>u16\<close>; the loop is left when neither opcode bit is set. The function
  returns the value of \<open>i\<close> after the loop. \<open>usleep_range\<close> only passes time.
\<close>

function b53_mdio_op_poll :: "'h mii_ops \<Rightarrow> 'h mii_bus \<Rightarrow> nat \<Rightarrow> nat \<times> 'h mii_bus" where
  "b53_mdio_op_poll T bus i =
     (if i < 5 then
        (case mdiobus_read T bus B53_PSEUDO_PHY REG_MII_ADDR of
           (r, bus') \<Rightarrow>
             if (word_of_int r :: 16 word) AND (REG_MII_ADDR_WRITE OR REG_MII_ADDR_READ) = 0
             then (i, bus')
             else b53_mdio_op_poll T bus' (i + 1))
      else (i, bus))"
  by pat_completeness auto
termination
  by (relation "measure (\<lambda>(T, bus, i). 5 - i)") auto

declare b53_mdio_op_poll.simps [simp del]

definition b53_mdio_op ::
  "'h mii_ops \<Rightarrow> 'h b53_device \<Rightarrow> 8 word \<Rightarrow> 8 word \<Rightarrow> 16 word \<Rightarrow> int \<times> 'h b53_device" where
  "b53_mdio_op T dev page reg op =
     (case (if current_page dev \<noteq> page then
              (case mdiobus_write T (priv dev) B53_PSEUDO_PHY REG_MII_PAGE
                      (push_bit 8 (ucast page) OR REG_MII_PAGE_ENABLE) of
                 (ret, bus) \<Rightarrow>
                   if ret \<noteq> 0 then (ret, dev\<lparr>priv := bus\<rparr>)
                   else (0, dev\<lparr>current_page := page, priv := bus\<rparr>))
            else (0, dev)) of
        (ret, dev1) \<Rightarrow>
          if ret \<noteq> 0 then (ret, dev1)
          else
            (case mdiobus_write T (priv dev1) B53_PSEUDO_PHY REG_MII_ADDR
                    (push_bit 8 (ucast reg) OR op) of
               (ret, bus) \<Rightarrow>
                 if ret \<noteq> 0 then (ret, dev1\<lparr>priv := bus\<rparr>)
                 else
                   (case b53_mdio_op_poll T bus 0 of
                      (i, bus') \<Rightarrow> (if i = 5 then - EIO else 0, dev1\<lparr>priv := bus'\<rparr>))))"

subsection \<open>Reads\<close>

text \<open>
  A read returns \<open>Inl ret\<close> where the C function returns the non-zero \<open>ret\<close> and leaves
  \<open>*val\<close> alone, and \<open>Inr v\<close> where it stores \<open>v\<close> in \<open>*val\<close> and returns 0.
\<close>

definition b53_mdio_read8 ::
  "'h mii_ops \<Rightarrow> 'h b53_device \<Rightarrow> 8 word \<Rightarrow> 8 word \<Rightarrow> (int + 8 word) \<times> 'h b53_device" where
  "b53_mdio_read8 T dev page reg =
     (case b53_mdio_op T dev page reg REG_MII_ADDR_READ of
        (ret, dev1) \<Rightarrow>
          if ret \<noteq> 0 then (Inl ret, dev1)
          else
            (case mdiobus_read T (priv dev1) B53_PSEUDO_PHY REG_MII_DATA0 of
               (r, bus) \<Rightarrow>
                 (Inr (ucast ((word_of_int r :: 32 word) AND 0xff)), dev1\<lparr>priv := bus\<rparr>)))"

definition b53_mdio_read16 ::
  "'h mii_ops \<Rightarrow> 'h b53_device \<Rightarrow> 8 word \<Rightarrow> 8 word \<Rightarrow> (int + 16 word) \<times> 'h b53_device" where
  "b53_mdio_read16 T dev page reg =
     (case b53_mdio_op T dev page reg REG_MII_ADDR_READ of
        (ret, dev1) \<Rightarrow>
          if ret \<noteq> 0 then (Inl ret, dev1)
          else
            (case mdiobus_read T (priv dev1) B53_PSEUDO_PHY REG_MII_DATA0 of
               (r, bus) \<Rightarrow> (Inr (word_of_int r), dev1\<lparr>priv := bus\<rparr>)))"

text \<open>
  In \<open>b53_mdio_read32\<close> the second read is shifted as an \<open>int\<close> and then joined to the
  \<open>u32\<close>: the 32-bit pattern shifted left by 16.
\<close>

definition b53_mdio_read32 ::
  "'h mii_ops \<Rightarrow> 'h b53_device \<Rightarrow> 8 word \<Rightarrow> 8 word \<Rightarrow> (int + 32 word) \<times> 'h b53_device" where
  "b53_mdio_read32 T dev page reg =
     (case b53_mdio_op T dev page reg REG_MII_ADDR_READ of
        (ret, dev1) \<Rightarrow>
          if ret \<noteq> 0 then (Inl ret, dev1)
          else
            (case mdiobus_read T (priv dev1) B53_PSEUDO_PHY REG_MII_DATA0 of
               (r0, bus0) \<Rightarrow>
                 (case mdiobus_read T bus0 B53_PSEUDO_PHY REG_MII_DATA1 of
                    (r1, bus1) \<Rightarrow>
                      (Inr ((word_of_int r0 :: 32 word) OR push_bit 16 (word_of_int r1)),
                       dev1\<lparr>priv := bus1\<rparr>))))"

text \<open>
  The loop of \<open>b53_mdio_read48\<close> and \<open>b53_mdio_read64\<close>,
  \<open>for (i = n; i >= 0; i--) { temp <<= 16; temp |= mdiobus_read(.., REG_MII_DATA0 + i); }\<close>
  with \<open>i\<close> an \<open>int\<close> and \<open>temp\<close> a \<open>u64\<close>: the \<open>int\<close> read is converted to 64 bits
  (sign-extended) before it is joined.
\<close>

function b53_mdio_read_loop ::
  "'h mii_ops \<Rightarrow> 'h mii_bus \<Rightarrow> int \<Rightarrow> 64 word \<Rightarrow> 64 word \<times> 'h mii_bus" where
  "b53_mdio_read_loop T bus i temp =
     (if i \<ge> 0 then
        (case mdiobus_read T bus B53_PSEUDO_PHY (REG_MII_DATA0 + i) of
           (r, bus') \<Rightarrow> b53_mdio_read_loop T bus' (i - 1) (push_bit 16 temp OR word_of_int r))
      else (temp, bus))"
  by pat_completeness auto
termination
  by (relation "measure (\<lambda>(T, bus, i, temp). nat (i + 1))") auto

declare b53_mdio_read_loop.simps [simp del]

definition b53_mdio_read48 ::
  "'h mii_ops \<Rightarrow> 'h b53_device \<Rightarrow> 8 word \<Rightarrow> 8 word \<Rightarrow> (int + 64 word) \<times> 'h b53_device" where
  "b53_mdio_read48 T dev page reg =
     (case b53_mdio_op T dev page reg REG_MII_ADDR_READ of
        (ret, dev1) \<Rightarrow>
          if ret \<noteq> 0 then (Inl ret, dev1)
          else
            (case b53_mdio_read_loop T (priv dev1) 2 0 of
               (temp, bus) \<Rightarrow> (Inr temp, dev1\<lparr>priv := bus\<rparr>)))"

definition b53_mdio_read64 ::
  "'h mii_ops \<Rightarrow> 'h b53_device \<Rightarrow> 8 word \<Rightarrow> 8 word \<Rightarrow> (int + 64 word) \<times> 'h b53_device" where
  "b53_mdio_read64 T dev page reg =
     (case b53_mdio_op T dev page reg REG_MII_ADDR_READ of
        (ret, dev1) \<Rightarrow>
          if ret \<noteq> 0 then (Inl ret, dev1)
          else
            (case b53_mdio_read_loop T (priv dev1) 3 0 of
               (temp, bus) \<Rightarrow> (Inr temp, dev1\<lparr>priv := bus\<rparr>)))"

subsection \<open>Writes\<close>

definition b53_mdio_write8 ::
  "'h mii_ops \<Rightarrow> 'h b53_device \<Rightarrow> 8 word \<Rightarrow> 8 word \<Rightarrow> 8 word \<Rightarrow> int \<times> 'h b53_device" where
  "b53_mdio_write8 T dev page reg val =
     (case mdiobus_write T (priv dev) B53_PSEUDO_PHY REG_MII_DATA0 (ucast val) of
        (ret, bus) \<Rightarrow>
          if ret \<noteq> 0 then (ret, dev\<lparr>priv := bus\<rparr>)
          else b53_mdio_op T (dev\<lparr>priv := bus\<rparr>) page reg REG_MII_ADDR_WRITE)"

definition b53_mdio_write16 ::
  "'h mii_ops \<Rightarrow> 'h b53_device \<Rightarrow> 8 word \<Rightarrow> 8 word \<Rightarrow> 16 word \<Rightarrow> int \<times> 'h b53_device" where
  "b53_mdio_write16 T dev page reg val =
     (case mdiobus_write T (priv dev) B53_PSEUDO_PHY REG_MII_DATA0 val of
        (ret, bus) \<Rightarrow>
          if ret \<noteq> 0 then (ret, dev\<lparr>priv := bus\<rparr>)
          else b53_mdio_op T (dev\<lparr>priv := bus\<rparr>) page reg REG_MII_ADDR_WRITE)"

text \<open>
  The staging loop of \<open>b53_mdio_write32\<close>, \<open>b53_mdio_write48\<close> and \<open>b53_mdio_write64\<close>,
  \<open>for (i = 0; i < n; i++) { ret = mdiobus_write(.., REG_MII_DATA0 + i, temp & 0xffff);
  if (ret) return ret; temp >>= 16; }\<close>, for the bound \<open>n\<close> and the type of \<open>temp\<close> of each
  (\<open>u32\<close>, \<open>u64\<close>, \<open>u64\<close>). It returns the failing \<open>ret\<close>, or 0 when the loop ran through.
\<close>

function b53_mdio_write_loop ::
  "'h mii_ops \<Rightarrow> nat \<Rightarrow> 'h mii_bus \<Rightarrow> nat \<Rightarrow> 'a::len word \<Rightarrow> int \<times> 'h mii_bus" where
  "b53_mdio_write_loop T n bus i temp =
     (if i < n then
        (case mdiobus_write T bus B53_PSEUDO_PHY (REG_MII_DATA0 + int i)
                (ucast (temp AND 0xffff)) of
           (ret, bus') \<Rightarrow>
             if ret \<noteq> 0 then (ret, bus')
             else b53_mdio_write_loop T n bus' (i + 1) (drop_bit 16 temp))
      else (0, bus))"
  by pat_completeness auto
termination
  by (relation "measure (\<lambda>(T, n, bus, i, temp). n - i)") auto

declare b53_mdio_write_loop.simps [simp del]

definition b53_mdio_write32 ::
  "'h mii_ops \<Rightarrow> 'h b53_device \<Rightarrow> 8 word \<Rightarrow> 8 word \<Rightarrow> 32 word \<Rightarrow> int \<times> 'h b53_device" where
  "b53_mdio_write32 T dev page reg val =
     (case b53_mdio_write_loop T 2 (priv dev) 0 val of
        (ret, bus) \<Rightarrow>
          if ret \<noteq> 0 then (ret, dev\<lparr>priv := bus\<rparr>)
          else b53_mdio_op T (dev\<lparr>priv := bus\<rparr>) page reg REG_MII_ADDR_WRITE)"

definition b53_mdio_write48 ::
  "'h mii_ops \<Rightarrow> 'h b53_device \<Rightarrow> 8 word \<Rightarrow> 8 word \<Rightarrow> 64 word \<Rightarrow> int \<times> 'h b53_device" where
  "b53_mdio_write48 T dev page reg val =
     (case b53_mdio_write_loop T 3 (priv dev) 0 val of
        (ret, bus) \<Rightarrow>
          if ret \<noteq> 0 then (ret, dev\<lparr>priv := bus\<rparr>)
          else b53_mdio_op T (dev\<lparr>priv := bus\<rparr>) page reg REG_MII_ADDR_WRITE)"

definition b53_mdio_write64 ::
  "'h mii_ops \<Rightarrow> 'h b53_device \<Rightarrow> 8 word \<Rightarrow> 8 word \<Rightarrow> 64 word \<Rightarrow> int \<times> 'h b53_device" where
  "b53_mdio_write64 T dev page reg val =
     (case b53_mdio_write_loop T 4 (priv dev) 0 val of
        (ret, bus) \<Rightarrow>
          if ret \<noteq> 0 then (ret, dev\<lparr>priv := bus\<rparr>)
          else b53_mdio_op T (dev\<lparr>priv := bus\<rparr>) page reg REG_MII_ADDR_WRITE)"

subsection \<open>The table \<open>b53_mdio_ops\<close>\<close>

text \<open>
  The ten functions are handed to the switch layer as \<open>struct b53_io_ops b53_mdio_ops\<close>.
  A request names the entry called and, for a write, the value; \<open>b53_mdio_ops\<close> calls the
  entry and gives back the C return value (0 where a read stored its result) and the
  device.
\<close>

datatype b53_io_req =
    Read8 | Read16 | Read32 | Read48 | Read64
  | Write8 "8 word" | Write16 "16 word" | Write32 "32 word" | Write48 "64 word"
  | Write64 "64 word"

fun ret_of :: "int + 'a \<Rightarrow> int" where
  "ret_of (Inl ret) = ret"
| "ret_of (Inr v) = 0"

fun b53_mdio_ops ::
  "'h mii_ops \<Rightarrow> b53_io_req \<Rightarrow> 'h b53_device \<Rightarrow> 8 word \<Rightarrow> 8 word \<Rightarrow> int \<times> 'h b53_device" where
  "b53_mdio_ops T Read8 dev page reg = map_prod ret_of id (b53_mdio_read8 T dev page reg)"
| "b53_mdio_ops T Read16 dev page reg = map_prod ret_of id (b53_mdio_read16 T dev page reg)"
| "b53_mdio_ops T Read32 dev page reg = map_prod ret_of id (b53_mdio_read32 T dev page reg)"
| "b53_mdio_ops T Read48 dev page reg = map_prod ret_of id (b53_mdio_read48 T dev page reg)"
| "b53_mdio_ops T Read64 dev page reg = map_prod ret_of id (b53_mdio_read64 T dev page reg)"
| "b53_mdio_ops T (Write8 v) dev page reg = b53_mdio_write8 T dev page reg v"
| "b53_mdio_ops T (Write16 v) dev page reg = b53_mdio_write16 T dev page reg v"
| "b53_mdio_ops T (Write32 v) dev page reg = b53_mdio_write32 T dev page reg v"
| "b53_mdio_ops T (Write48 v) dev page reg = b53_mdio_write48 T dev page reg v"
| "b53_mdio_ops T (Write64 v) dev page reg = b53_mdio_write64 T dev page reg v"

subsection \<open>\<open>b53_phy_probe\<close>\<close>

text \<open>
  Of the probe, the part that concerns register access: the device is allocated on the
  bus of the PHY and \<open>current_page\<close> is set to \<open>0xff\<close>.
\<close>

definition b53_phy_probe :: "'h mii_bus \<Rightarrow> 'h b53_device" where
  "b53_phy_probe bus = \<lparr>current_page = 0xff, priv = bus\<rparr>"

subsection \<open>Observing the bus\<close>

text \<open>The transactions a call has added to the log.\<close>

definition issued :: "'h b53_device \<Rightarrow> 'h b53_device \<Rightarrow> mii_txn list" where
  "issued dev dev' = drop (length (mii_log (priv dev))) (mii_log (priv dev'))"

fun is_write :: "mii_txn \<Rightarrow> bool" where
  "is_write (MdioWrite r v e) = True"
| "is_write (MdioRead r e) = False"

fun is_write_to :: "int \<Rightarrow> mii_txn \<Rightarrow> bool" where
  "is_write_to r (MdioWrite r' v e) = (r' = r)"
| "is_write_to r (MdioRead r' e) = False"

fun is_read_of :: "int \<Rightarrow> mii_txn \<Rightarrow> bool" where
  "is_read_of r (MdioWrite r' v e) = False"
| "is_read_of r (MdioRead r' e) = (r' = r)"

text \<open>
  The four data registers \<open>REG_MII_DATA0 .. REG_MII_DATA3\<close>, and the writes and reads
  that go to them.
\<close>

definition is_slot :: "int \<Rightarrow> bool" where
  "is_slot regnum \<longleftrightarrow> REG_MII_DATA0 \<le> regnum \<and> regnum \<le> REG_MII_DATA3"

fun is_slot_write :: "mii_txn \<Rightarrow> bool" where
  "is_slot_write (MdioWrite r v e) = is_slot r"
| "is_slot_write (MdioRead r e) = False"

fun is_slot_read :: "mii_txn \<Rightarrow> bool" where
  "is_slot_read (MdioWrite r v e) = False"
| "is_slot_read (MdioRead r e) = is_slot r"

text \<open>The page-select writes among some transactions, in their order.\<close>

definition page_selects :: "mii_txn list \<Rightarrow> mii_txn list" where
  "page_selects tr = filter (is_write_to REG_MII_PAGE) tr"

text \<open>The reads of the data registers among some transactions, in their order.\<close>

definition slot_reads :: "mii_txn list \<Rightarrow> mii_txn list" where
  "slot_reads tr = filter is_slot_read tr"

text \<open>The reads of the address register (the completion polls) among some transactions.\<close>

definition polls :: "mii_txn list \<Rightarrow> mii_txn list" where
  "polls tr = filter (is_read_of REG_MII_ADDR) tr"

text \<open>
  What the completion loop makes of the \<open>int\<close> a poll returned: the operation counts
  as pending when the value cut to 16 bits has the READ or the WRITE bit.
\<close>

definition op_pending :: "int \<Rightarrow> bool" where
  "op_pending r \<longleftrightarrow>
     (word_of_int r :: 16 word) AND (REG_MII_ADDR_WRITE OR REG_MII_ADDR_READ) \<noteq> 0"

text \<open>A poll that saw the operation complete.\<close>

definition is_done_poll :: "mii_txn \<Rightarrow> bool" where
  "is_done_poll t \<longleftrightarrow> is_read_of REG_MII_ADDR t \<and> \<not> op_pending (txn_ret t)"

text \<open>No write among the transactions was refused by the bus.\<close>

definition writes_accepted :: "mii_txn list \<Rightarrow> bool" where
  "writes_accepted tr \<longleftrightarrow> (\<forall>t \<in> set tr. is_write t \<longrightarrow> txn_ret t = 0)"

text \<open>No write to a data register among the transactions was refused by the bus.\<close>

definition slot_writes_accepted :: "mii_txn list \<Rightarrow> bool" where
  "slot_writes_accepted tr \<longleftrightarrow> (\<forall>t \<in> set tr. is_slot_write t \<longrightarrow> txn_ret t = 0)"

subsection \<open>Two buses for tests\<close>

text \<open>
  A bus that replays a script: each transaction, read or write, returns the next number
  of the list, and 0 once the list is used up.
\<close>

definition script_ops :: "int list mii_ops" where
  "script_ops =
     \<lparr>mii_read = (\<lambda>h addr regnum. case h of [] \<Rightarrow> (0, []) | x # xs \<Rightarrow> (x, xs)),
      mii_write = (\<lambda>h addr regnum val. case h of [] \<Rightarrow> (0, []) | x # xs \<Rightarrow> (x, xs))\<rparr>"

definition script_dev :: "8 word \<Rightarrow> int list \<Rightarrow> int list b53_device" where
  "script_dev cp script = \<lparr>current_page = cp, priv = \<lparr>mii_hw = script, mii_log = []\<rparr>\<rparr>"

text \<open>
  A bus without faults whose four data registers keep what was written to them: every
  write returns 0, a read of a data register returns its content, and a read of the
  address register returns 0 (no operation pending).
\<close>

definition slot_ops :: "(int \<Rightarrow> 16 word) mii_ops" where
  "slot_ops =
     \<lparr>mii_read = (\<lambda>h addr regnum. (if is_slot regnum then uint (h regnum) else 0, h)),
      mii_write = (\<lambda>h addr regnum val. (0, if is_slot regnum then h(regnum := val) else h))\<rparr>"

subsection \<open>Requests as the driver sees them\<close>

text \<open>The opcode a request passes to \<open>b53_mdio_op\<close>.\<close>

fun req_op :: "b53_io_req \<Rightarrow> 16 word" where
  "req_op (Write8 v) = REG_MII_ADDR_WRITE"
| "req_op (Write16 v) = REG_MII_ADDR_WRITE"
| "req_op (Write32 v) = REG_MII_ADDR_WRITE"
| "req_op (Write48 v) = REG_MII_ADDR_WRITE"
| "req_op (Write64 v) = REG_MII_ADDR_WRITE"
| "req_op rq = REG_MII_ADDR_READ"

fun is_write_req :: "b53_io_req \<Rightarrow> bool" where
  "is_write_req (Write8 v) = True"
| "is_write_req (Write16 v) = True"
| "is_write_req (Write32 v) = True"
| "is_write_req (Write48 v) = True"
| "is_write_req (Write64 v) = True"
| "is_write_req rq = False"

text \<open>The width in bits of the register a request names, and the value of a write.\<close>

fun req_width :: "b53_io_req \<Rightarrow> nat" where
  "req_width Read8 = 8"
| "req_width Read16 = 16"
| "req_width Read32 = 32"
| "req_width Read48 = 48"
| "req_width Read64 = 64"
| "req_width (Write8 v) = 8"
| "req_width (Write16 v) = 16"
| "req_width (Write32 v) = 32"
| "req_width (Write48 v) = 48"
| "req_width (Write64 v) = 64"

fun req_value :: "b53_io_req \<Rightarrow> 64 word" where
  "req_value (Write8 v) = ucast v"
| "req_value (Write16 v) = ucast v"
| "req_value (Write32 v) = ucast v"
| "req_value (Write48 v) = v"
| "req_value (Write64 v) = v"
| "req_value rq = 0"

text \<open>
  The words the staging loop writes when it runs \<open>m\<close> rounds from \<open>temp\<close>, and the words
  a request stages.
\<close>

primrec slot_words :: "nat \<Rightarrow> 'a::len word \<Rightarrow> 16 word list" where
  "slot_words 0 temp = []"
| "slot_words (Suc m) temp = ucast (temp AND 0xffff) # slot_words m (drop_bit 16 temp)"

fun req_slots :: "b53_io_req \<Rightarrow> 16 word list" where
  "req_slots (Write8 v) = [ucast v]"
| "req_slots (Write16 v) = [v]"
| "req_slots (Write32 v) = slot_words 2 v"
| "req_slots (Write48 v) = slot_words 3 v"
| "req_slots (Write64 v) = slot_words 4 v"
| "req_slots rq = []"

subsection \<open>The shape of the bus traffic\<close>

text \<open>
  The traffic of each part of an access is described by a relation between its inputs,
  its result and the transactions it adds to the log; the lemmas below show that the
  functions of the driver produce traffic of these shapes and no other.

  \<open>poll_run i k rs\<close>: the completion loop entered with counter \<open>i\<close> leaves with counter
  \<open>k\<close> after polls that returned \<open>rs\<close>.
\<close>

inductive poll_run :: "nat \<Rightarrow> nat \<Rightarrow> int list \<Rightarrow> bool" for i where
  poll_done: "\<forall>r \<in> set ps. op_pending r \<Longrightarrow> i + length ps < 5 \<Longrightarrow> \<not> op_pending c \<Longrightarrow>
     poll_run i (i + length ps) (ps @ [c])"
| poll_out: "\<forall>r \<in> set ps. op_pending r \<Longrightarrow> i + length ps = 5 \<Longrightarrow> poll_run i 5 ps"

definition sel_txns :: "8 word \<Rightarrow> 8 word \<Rightarrow> mii_txn list" where
  "sel_txns cp page =
     (if cp \<noteq> page
      then [MdioWrite REG_MII_PAGE (push_bit 8 (ucast page) OR REG_MII_PAGE_ENABLE) 0]
      else [])"

text \<open>
  \<open>op_run cp page aw ret cp' Y\<close>: \<open>b53_mdio_op\<close> entered with cached page \<open>cp\<close> for
  \<open>page\<close> and address word \<open>aw\<close> returns \<open>ret\<close>, leaves the cached page \<open>cp'\<close> and issues \<open>Y\<close>.
\<close>

inductive op_run :: "8 word \<Rightarrow> 8 word \<Rightarrow> 16 word \<Rightarrow> int \<Rightarrow> 8 word \<Rightarrow> mii_txn list \<Rightarrow> bool"
  for cp page aw where
  op_select_failed: "cp \<noteq> page \<Longrightarrow> e \<noteq> 0 \<Longrightarrow>
     op_run cp page aw e cp
       [MdioWrite REG_MII_PAGE (push_bit 8 (ucast page) OR REG_MII_PAGE_ENABLE) e]"
| op_addr_failed: "e \<noteq> 0 \<Longrightarrow>
     op_run cp page aw e page (sel_txns cp page @ [MdioWrite REG_MII_ADDR aw e])"
| op_polled: "poll_run 0 k rs \<Longrightarrow>
     op_run cp page aw (if k = 5 then - EIO else 0) page
       (sel_txns cp page @ MdioWrite REG_MII_ADDR aw 0 # map (MdioRead REG_MII_ADDR) rs)"

text \<open>Accepted writes of \<open>vs\<close> to the data registers from number \<open>i\<close> on.\<close>

definition staged :: "nat \<Rightarrow> 16 word list \<Rightarrow> mii_txn list" where
  "staged i vs = map (\<lambda>(j, v). MdioWrite (REG_MII_DATA0 + int j) v 0) (List.enumerate i vs)"

inductive staging :: "nat \<Rightarrow> 16 word list \<Rightarrow> int \<Rightarrow> mii_txn list \<Rightarrow> bool" for i vs where
  staging_through: "staging i vs 0 (staged i vs)"
| staging_failed: "k < length vs \<Longrightarrow> e \<noteq> 0 \<Longrightarrow>
     staging i vs e
       (staged i (take k vs) @ [MdioWrite (REG_MII_DATA0 + int (i + k)) (vs ! k) e])"

text \<open>
  \<open>access_run cp page aw vs ret cp' X\<close>: an entry of the table that stages \<open>vs\<close> (nothing
  for a read) returns \<open>ret\<close>, leaves the cached page \<open>cp'\<close> and issues \<open>X\<close>.
\<close>

inductive access_run ::
  "8 word \<Rightarrow> 8 word \<Rightarrow> 16 word \<Rightarrow> 16 word list \<Rightarrow> int \<Rightarrow> 8 word \<Rightarrow> mii_txn list \<Rightarrow> bool"
  for cp page aw vs where
  acc_stage_failed: "staging 0 vs e X \<Longrightarrow> e \<noteq> 0 \<Longrightarrow> access_run cp page aw vs e cp X"
| acc_op_failed: "op_run cp page aw e cp' Y \<Longrightarrow> e \<noteq> 0 \<Longrightarrow>
     access_run cp page aw vs e cp' (staged 0 vs @ Y)"
| acc_done: "op_run cp page aw 0 cp' Y \<Longrightarrow> \<forall>t \<in> set Z. is_slot_read t \<Longrightarrow>
     access_run cp page aw vs 0 cp' (staged 0 vs @ Y @ Z)"

section \<open>The traffic of the driver\<close>

lemmas b53_regs =
  B53_PSEUDO_PHY_def REG_MII_PAGE_def REG_MII_ADDR_def REG_MII_DATA0_def
  REG_MII_DATA1_def REG_MII_DATA2_def REG_MII_DATA3_def

lemmas b53_bits = REG_MII_PAGE_ENABLE_def REG_MII_ADDR_WRITE_def REG_MII_ADDR_READ_def

subsection \<open>Single transactions\<close>

lemma mdiobus_write_simps [simp]:
  "fst (mdiobus_write T bus a r v) = fst (mii_write T (mii_hw bus) a r v)"
  "mii_hw (snd (mdiobus_write T bus a r v)) = snd (mii_write T (mii_hw bus) a r v)"
  "mii_log (snd (mdiobus_write T bus a r v)) =
     mii_log bus @ [MdioWrite r v (fst (mii_write T (mii_hw bus) a r v))]"
  by (simp_all add: mdiobus_write_def split: prod.split)

lemma mdiobus_read_simps [simp]:
  "fst (mdiobus_read T bus a r) = fst (mii_read T (mii_hw bus) a r)"
  "mii_hw (snd (mdiobus_read T bus a r)) = snd (mii_read T (mii_hw bus) a r)"
  "mii_log (snd (mdiobus_read T bus a r)) =
     mii_log bus @ [MdioRead r (fst (mii_read T (mii_hw bus) a r))]"
  by (simp_all add: mdiobus_read_def split: prod.split)

subsection \<open>The completion loop and \<open>b53_mdio_op\<close>\<close>

lemma poll_run_step:
  assumes "poll_run (Suc i) k rs" "op_pending r"
  shows "poll_run i k (r # rs)"
  using assms
proof (cases rule: poll_run.cases)
  case (poll_done ps c)
  then show ?thesis
    using assms(2) poll_run.poll_done [of "r # ps" i c] by simp
next
  case poll_out
  then show ?thesis
    using assms(2) poll_run.poll_out [of "r # rs" i] by simp
qed

lemma b53_mdio_op_poll_run:
  "i \<le> 5 \<Longrightarrow> \<exists>rs. mii_log (snd (b53_mdio_op_poll T bus i)) =
           mii_log bus @ map (MdioRead REG_MII_ADDR) rs \<and>
         poll_run i (fst (b53_mdio_op_poll T bus i)) rs"
proof (induction T bus i rule: b53_mdio_op_poll.induct)
  case (1 T bus i)
  show ?case
  proof (cases "i < 5")
    case False
    then have "b53_mdio_op_poll T bus i = (i, bus)"
      by (simp add: b53_mdio_op_poll.simps [of T bus i])
    moreover have "poll_run i 5 []"
      using poll_run.poll_out [of "[]" i] False "1.prems" by simp
    moreover have "i = 5"
      using False "1.prems" by simp
    ultimately show ?thesis
      by (intro exI [of _ "[]"]) simp
  next
    case True
    obtain r bus' where rd: "mdiobus_read T bus B53_PSEUDO_PHY REG_MII_ADDR = (r, bus')"
      by (cases "mdiobus_read T bus B53_PSEUDO_PHY REG_MII_ADDR")
    have log': "mii_log bus' = mii_log bus @ [MdioRead REG_MII_ADDR r]"
      using mdiobus_read_simps(1,3) [of T bus B53_PSEUDO_PHY REG_MII_ADDR] rd by simp
    show ?thesis
    proof (cases "op_pending r")
      case False
      then have "b53_mdio_op_poll T bus i = (i, bus')"
        using True rd by (simp add: b53_mdio_op_poll.simps [of T bus i] op_pending_def)
      moreover have "poll_run i i [r]"
        using poll_run.poll_done [of "[]" i r] True False by simp
      ultimately show ?thesis
        using log' by (intro exI [of _ "[r]"]) simp
    next
      case pend: True
      then have eq: "b53_mdio_op_poll T bus i = b53_mdio_op_poll T bus' (i + 1)"
        using True rd by (simp add: b53_mdio_op_poll.simps [of T bus i] op_pending_def)
      have "\<exists>rs. mii_log (snd (b53_mdio_op_poll T bus' (i + 1))) =
                 mii_log bus' @ map (MdioRead REG_MII_ADDR) rs \<and>
               poll_run (i + 1) (fst (b53_mdio_op_poll T bus' (i + 1))) rs"
        using "1.IH" [OF True rd [symmetric]] pend True
        by (simp add: op_pending_def)
      then obtain rs where
        rs: "mii_log (snd (b53_mdio_op_poll T bus' (i + 1))) =
               mii_log bus' @ map (MdioRead REG_MII_ADDR) rs"
          "poll_run (Suc i) (fst (b53_mdio_op_poll T bus' (i + 1))) rs"
        by auto
      show ?thesis
        using rs(1) poll_run_step [OF rs(2) pend] log' eq
        by (intro exI [of _ "r # rs"]) simp
    qed
  qed
qed

lemma issuedI: "mii_log (priv dev') = mii_log (priv dev) @ X \<Longrightarrow> issued dev dev' = X"
  by (simp add: issued_def)

lemma b53_mdio_op_run:
  "\<exists>X. mii_log (priv (snd (b53_mdio_op T dev page reg op))) = mii_log (priv dev) @ X \<and>
       op_run (current_page dev) page (push_bit 8 (ucast reg) OR op)
         (fst (b53_mdio_op T dev page reg op))
         (current_page (snd (b53_mdio_op T dev page reg op))) X"
proof -
  let ?pw = "push_bit 8 (ucast page) OR REG_MII_PAGE_ENABLE"
  let ?aw = "push_bit 8 (ucast reg) OR op"
  obtain e1 bus1 where w1: "mdiobus_write T (priv dev) B53_PSEUDO_PHY REG_MII_PAGE ?pw = (e1, bus1)"
    by (cases "mdiobus_write T (priv dev) B53_PSEUDO_PHY REG_MII_PAGE ?pw")
  have log1: "mii_log bus1 = mii_log (priv dev) @ [MdioWrite REG_MII_PAGE ?pw e1]"
    using mdiobus_write_simps(1,3) [of T "priv dev" B53_PSEUDO_PHY REG_MII_PAGE ?pw] w1 by simp
  define dev1 where
    "dev1 = (if current_page dev \<noteq> page then dev\<lparr>current_page := page, priv := bus1\<rparr> else dev)"
  have log_dev1: "mii_log (priv dev1) = mii_log (priv dev) @ sel_txns (current_page dev) page"
    if "current_page dev = page \<or> e1 = 0"
    using that log1 by (auto simp: dev1_def sel_txns_def)
  have cp1: "current_page dev1 = page"
    by (simp add: dev1_def)
  obtain e2 bus2 where w2: "mdiobus_write T (priv dev1) B53_PSEUDO_PHY REG_MII_ADDR ?aw = (e2, bus2)"
    by (cases "mdiobus_write T (priv dev1) B53_PSEUDO_PHY REG_MII_ADDR ?aw")
  have log2: "mii_log bus2 = mii_log (priv dev1) @ [MdioWrite REG_MII_ADDR ?aw e2]"
    using mdiobus_write_simps(1,3) [of T "priv dev1" B53_PSEUDO_PHY REG_MII_ADDR ?aw] w2 by simp
  obtain k bus3 where p3: "b53_mdio_op_poll T bus2 0 = (k, bus3)"
    by (cases "b53_mdio_op_poll T bus2 0")
  obtain rs where rs: "mii_log bus3 = mii_log bus2 @ map (MdioRead REG_MII_ADDR) rs"
      "poll_run 0 k rs"
    using b53_mdio_op_poll_run [of 0 T bus2] p3 by auto
  consider (sel) "current_page dev \<noteq> page" "e1 \<noteq> 0"
    | (addr) "current_page dev = page \<or> e1 = 0" "e2 \<noteq> 0"
    | (poll) "current_page dev = page \<or> e1 = 0" "e2 = 0"
    by blast
  then show ?thesis
  proof cases
    case sel
    then have "b53_mdio_op T dev page reg op = (e1, dev\<lparr>priv := bus1\<rparr>)"
      using w1 by (simp add: b53_mdio_op_def)
    then show ?thesis
      using log1 sel
      by (auto intro: op_select_failed)
  next
    case addr
    then have "b53_mdio_op T dev page reg op = (e2, dev1\<lparr>priv := bus2\<rparr>)"
      using w1 w2 by (auto simp: b53_mdio_op_def dev1_def)
    then show ?thesis
      using log2 log_dev1 [OF addr(1)] cp1 op_addr_failed [OF addr(2), of "current_page dev" page ?aw]
      by simp
  next
    case poll
    then have "b53_mdio_op T dev page reg op = (if k = 5 then - EIO else 0, dev1\<lparr>priv := bus3\<rparr>)"
      using w1 w2 p3 by (auto simp: b53_mdio_op_def dev1_def)
    then show ?thesis
      using rs(1) log2 log_dev1 [OF poll(1)] cp1 poll(2)
        op_polled [OF rs(2), of "current_page dev" page ?aw]
      by simp
  qed
qed

subsection \<open>The staging loop and the read loop\<close>

lemma staging_step:
  assumes "staging (Suc i) vs e X"
  shows "staging i (v # vs) e (MdioWrite (REG_MII_DATA0 + int i) v 0 # X)"
  using assms
proof (cases rule: staging.cases)
  case staging_through
  then show ?thesis
    using staging.staging_through [of i "v # vs"] by (simp add: staged_def)
next
  case (staging_failed k)
  then show ?thesis
    using staging.staging_failed [of "Suc k" "v # vs" e i] by (simp add: staged_def)
qed

lemma b53_mdio_write_loop_run:
  "i \<le> n \<Longrightarrow> \<exists>X. mii_log (snd (b53_mdio_write_loop T n bus i temp)) = mii_log bus @ X \<and>
       staging i (slot_words (n - i) temp) (fst (b53_mdio_write_loop T n bus i temp)) X"
proof (induction T n bus i temp rule: b53_mdio_write_loop.induct)
  case (1 T n bus i temp)
  show ?case
  proof (cases "i < n")
    case False
    then have "b53_mdio_write_loop T n bus i temp = (0, bus)"
      by (simp add: b53_mdio_write_loop.simps [of T n bus i temp])
    moreover have "n - i = 0"
      using False by simp
    ultimately show ?thesis
      using staging_through [of i "[]"] by (simp add: staged_def)
  next
    case True
    let ?v = "ucast (temp AND 0xffff) :: 16 word"
    obtain e bus' where
      wr: "mdiobus_write T bus B53_PSEUDO_PHY (REG_MII_DATA0 + int i) ?v = (e, bus')"
      by (cases "mdiobus_write T bus B53_PSEUDO_PHY (REG_MII_DATA0 + int i) ?v")
    have log': "mii_log bus' = mii_log bus @ [MdioWrite (REG_MII_DATA0 + int i) ?v e]"
      using mdiobus_write_simps(1,3) [of T bus B53_PSEUDO_PHY "REG_MII_DATA0 + int i" ?v] wr
      by simp
    have sw: "slot_words (n - i) temp = ?v # slot_words (n - (i + 1)) (drop_bit 16 temp)"
      using True by (simp add: Suc_diff_Suc [symmetric] del: Suc_diff_Suc)
    show ?thesis
    proof (cases "e = 0")
      case False
      then have "b53_mdio_write_loop T n bus i temp = (e, bus')"
        using True wr by (simp add: b53_mdio_write_loop.simps [of T n bus i temp])
      then show ?thesis
        using log' sw staging_failed [of 0 "slot_words (n - i) temp" e i] False True
        by (simp add: staged_def)
    next
      case ok: True
      then have eq: "b53_mdio_write_loop T n bus i temp =
          b53_mdio_write_loop T n bus' (i + 1) (drop_bit 16 temp)"
        using True wr by (simp add: b53_mdio_write_loop.simps [of T n bus i temp])
      obtain X where
        X: "mii_log (snd (b53_mdio_write_loop T n bus' (i + 1) (drop_bit 16 temp))) =
              mii_log bus' @ X"
          "staging (Suc i) (slot_words (n - (i + 1)) (drop_bit 16 temp))
             (fst (b53_mdio_write_loop T n bus' (i + 1) (drop_bit 16 temp))) X"
        using "1.IH" [OF True wr [symmetric]] ok True by auto
      show ?thesis
        using X(1) staging_step [OF X(2), of ?v] log' eq sw ok
        by (intro exI [of _ "MdioWrite (REG_MII_DATA0 + int i) ?v 0 # X"]) simp
    qed
  qed
qed

lemma b53_mdio_read_loop_run:
  "i \<le> 3 \<Longrightarrow> \<exists>Z. mii_log (snd (b53_mdio_read_loop T bus i temp)) = mii_log bus @ Z \<and>
       (\<forall>t \<in> set Z. is_slot_read t)"
proof (induction T bus i temp rule: b53_mdio_read_loop.induct)
  case (1 T bus i temp)
  show ?case
  proof (cases "i \<ge> 0")
    case False
    then have "b53_mdio_read_loop T bus i temp = (temp, bus)"
      by (simp add: b53_mdio_read_loop.simps [of T bus i temp])
    then show ?thesis
      by simp
  next
    case True
    obtain r bus' where
      rd: "mdiobus_read T bus B53_PSEUDO_PHY (REG_MII_DATA0 + i) = (r, bus')"
      by (cases "mdiobus_read T bus B53_PSEUDO_PHY (REG_MII_DATA0 + i)")
    have log': "mii_log bus' = mii_log bus @ [MdioRead (REG_MII_DATA0 + i) r]"
      using mdiobus_read_simps(1,3) [of T bus B53_PSEUDO_PHY "REG_MII_DATA0 + i"] rd by simp
    have eq: "b53_mdio_read_loop T bus i temp =
        b53_mdio_read_loop T bus' (i - 1) (push_bit 16 temp OR word_of_int r)"
      using True rd by (simp add: b53_mdio_read_loop.simps [of T bus i temp])
    obtain Z where
      Z: "mii_log (snd (b53_mdio_read_loop T bus' (i - 1) (push_bit 16 temp OR word_of_int r))) =
            mii_log bus' @ Z" "\<forall>t \<in> set Z. is_slot_read t"
      using "1.IH" [OF True rd [symmetric]] "1.prems" by auto
    have "is_slot (REG_MII_DATA0 + i)"
      using True "1.prems" by (simp add: is_slot_def b53_regs)
    then show ?thesis
      using Z log' eq
      by (intro exI [of _ "MdioRead (REG_MII_DATA0 + i) r # Z"]) simp
  qed
qed

subsection \<open>The ten entries\<close>

lemma staging_zero: "staging i vs 0 X \<Longrightarrow> X = staged i vs"
  by (erule staging.cases) simp_all

text \<open>A read: the operation, then reads of data registers when it succeeded.\<close>

lemma read_access_run:
  fixes R :: "int \<times> 'h b53_device"
  assumes ret: "fst R = fst (b53_mdio_op T dev page reg REG_MII_ADDR_READ)"
    and cp: "current_page (snd R) = current_page (snd (b53_mdio_op T dev page reg REG_MII_ADDR_READ))"
    and log: "\<exists>Z. mii_log (priv (snd R)) =
        mii_log (priv (snd (b53_mdio_op T dev page reg REG_MII_ADDR_READ))) @ Z \<and>
        (\<forall>t \<in> set Z. is_slot_read t) \<and> (fst R \<noteq> 0 \<longrightarrow> Z = [])"
  shows "\<exists>X. mii_log (priv (snd R)) = mii_log (priv dev) @ X \<and>
       access_run (current_page dev) page (push_bit 8 (ucast reg) OR REG_MII_ADDR_READ) []
         (fst R) (current_page (snd R)) X"
proof -
  let ?O = "b53_mdio_op T dev page reg REG_MII_ADDR_READ"
  obtain Y where Y: "mii_log (priv (snd ?O)) = mii_log (priv dev) @ Y"
    "op_run (current_page dev) page (push_bit 8 (ucast reg) OR REG_MII_ADDR_READ)
       (fst ?O) (current_page (snd ?O)) Y"
    using b53_mdio_op_run [of T dev page reg REG_MII_ADDR_READ] by auto
  obtain Z where Z: "mii_log (priv (snd R)) = mii_log (priv (snd ?O)) @ Z"
    "\<forall>t \<in> set Z. is_slot_read t" "fst R \<noteq> 0 \<longrightarrow> Z = []"
    using log by auto
  show ?thesis
  proof (cases "fst R = 0")
    case True
    then show ?thesis
      using acc_done [of "current_page dev" page _ "current_page (snd ?O)" Y Z "[]"]
        Y Z ret cp by (simp add: staged_def)
  next
    case False
    then show ?thesis
      using acc_op_failed [of "current_page dev" page _ "fst ?O" "current_page (snd ?O)" Y "[]"]
        Y Z ret cp by (simp add: staged_def)
  qed
qed

text \<open>A write: the staging, then the operation when no staging write failed.\<close>

lemma write_access_run:
  fixes R :: "int \<times> 'h b53_device"
  assumes log: "mii_log bus = mii_log (priv dev) @ X"
    and st: "staging 0 vs e X"
    and R: "R = (if e \<noteq> 0 then (e, dev\<lparr>priv := bus\<rparr>)
                 else b53_mdio_op T (dev\<lparr>priv := bus\<rparr>) page reg REG_MII_ADDR_WRITE)"
  shows "\<exists>X. mii_log (priv (snd R)) = mii_log (priv dev) @ X \<and>
       access_run (current_page dev) page (push_bit 8 (ucast reg) OR REG_MII_ADDR_WRITE) vs
         (fst R) (current_page (snd R)) X"
proof (cases "e = 0")
  case False
  then show ?thesis
    using acc_stage_failed [OF st False, of "current_page dev" page] R log by simp
next
  case True
  let ?dev = "dev\<lparr>priv := bus\<rparr>"
  let ?O = "b53_mdio_op T ?dev page reg REG_MII_ADDR_WRITE"
  have X: "X = staged 0 vs"
    using st True staging_zero by simp
  obtain Y where Y: "mii_log (priv (snd ?O)) = mii_log (priv ?dev) @ Y"
    "op_run (current_page ?dev) page (push_bit 8 (ucast reg) OR REG_MII_ADDR_WRITE)
       (fst ?O) (current_page (snd ?O)) Y"
    using b53_mdio_op_run [of T ?dev page reg REG_MII_ADDR_WRITE] by auto
  have R': "R = ?O"
    using R True by simp
  show ?thesis
  proof (cases "fst ?O = 0")
    case ok: True
    then show ?thesis
      using acc_done [of "current_page dev" page _ "current_page (snd ?O)" Y "[]" vs]
        Y R' X log by simp
  next
    case False
    then show ?thesis
      using acc_op_failed [of "current_page dev" page _ "fst ?O" "current_page (snd ?O)" Y vs]
        Y R' X log by simp
  qed
qed

lemma staging_single:
  "mdiobus_write T bus B53_PSEUDO_PHY REG_MII_DATA0 v = (e, bus') \<Longrightarrow>
   \<exists>X. mii_log bus' = mii_log bus @ X \<and> staging 0 [v] e X"
  using mdiobus_write_simps(1,3) [of T bus B53_PSEUDO_PHY REG_MII_DATA0 v]
    staging_through [of 0 "[v]"] staging_failed [of 0 "[v]" e 0]
  by (cases "e = 0") (auto simp: staged_def)

lemma b53_mdio_ops_run:
  "\<exists>X. mii_log (priv (snd (b53_mdio_ops T rq dev page reg))) = mii_log (priv dev) @ X \<and>
       access_run (current_page dev) page (push_bit 8 (ucast reg) OR req_op rq) (req_slots rq)
         (fst (b53_mdio_ops T rq dev page reg))
         (current_page (snd (b53_mdio_ops T rq dev page reg))) X"
proof (cases rq)
  case Read8
  show ?thesis
    unfolding Read8 req_op.simps req_slots.simps
    by (rule read_access_run [where T = T])
      (simp_all add: b53_mdio_read8_def case_prod_beta is_slot_def b53_regs)
next
  case Read16
  show ?thesis
    unfolding Read16 req_op.simps req_slots.simps
    by (rule read_access_run [where T = T])
      (simp_all add: b53_mdio_read16_def case_prod_beta is_slot_def b53_regs)
next
  case Read32
  show ?thesis
    unfolding Read32 req_op.simps req_slots.simps
    by (rule read_access_run [where T = T])
      (simp_all add: b53_mdio_read32_def case_prod_beta is_slot_def b53_regs)
next
  case Read48
  show ?thesis
    unfolding Read48 req_op.simps req_slots.simps
    using b53_mdio_read_loop_run
        [of 2 T "priv (snd (b53_mdio_op T dev page reg REG_MII_ADDR_READ))" 0]
    by (intro read_access_run [where T = T])
      (simp_all add: b53_mdio_read48_def case_prod_beta)
next
  case Read64
  show ?thesis
    unfolding Read64 req_op.simps req_slots.simps
    using b53_mdio_read_loop_run
        [of 3 T "priv (snd (b53_mdio_op T dev page reg REG_MII_ADDR_READ))" 0]
    by (intro read_access_run [where T = T])
      (simp_all add: b53_mdio_read64_def case_prod_beta)
next
  case (Write8 v)
  obtain e bus where
    w: "mdiobus_write T (priv dev) B53_PSEUDO_PHY REG_MII_DATA0 (ucast v) = (e, bus)"
    by (cases "mdiobus_write T (priv dev) B53_PSEUDO_PHY REG_MII_DATA0 (ucast v)")
  obtain X where X: "mii_log bus = mii_log (priv dev) @ X" "staging 0 [ucast v] e X"
    using staging_single [OF w] by auto
  show ?thesis
    unfolding Write8 req_op.simps req_slots.simps
    by (rule write_access_run [OF X]) (simp add: b53_mdio_write8_def w)
next
  case (Write16 v)
  obtain e bus where
    w: "mdiobus_write T (priv dev) B53_PSEUDO_PHY REG_MII_DATA0 v = (e, bus)"
    by (cases "mdiobus_write T (priv dev) B53_PSEUDO_PHY REG_MII_DATA0 v")
  obtain X where X: "mii_log bus = mii_log (priv dev) @ X" "staging 0 [v] e X"
    using staging_single [OF w] by auto
  show ?thesis
    unfolding Write16 req_op.simps req_slots.simps
    by (rule write_access_run [OF X]) (simp add: b53_mdio_write16_def w)
next
  case (Write32 v)
  obtain e bus where w: "b53_mdio_write_loop T 2 (priv dev) 0 v = (e, bus)"
    by (cases "b53_mdio_write_loop T 2 (priv dev) 0 v")
  obtain X where X: "mii_log bus = mii_log (priv dev) @ X" "staging 0 (slot_words 2 v) e X"
    using b53_mdio_write_loop_run [of 0 2 T "priv dev" v] w by auto
  show ?thesis
    unfolding Write32 req_op.simps req_slots.simps
    by (rule write_access_run [OF X]) (simp add: b53_mdio_write32_def w)
next
  case (Write48 v)
  obtain e bus where w: "b53_mdio_write_loop T 3 (priv dev) 0 v = (e, bus)"
    by (cases "b53_mdio_write_loop T 3 (priv dev) 0 v")
  obtain X where X: "mii_log bus = mii_log (priv dev) @ X" "staging 0 (slot_words 3 v) e X"
    using b53_mdio_write_loop_run [of 0 3 T "priv dev" v] w by auto
  show ?thesis
    unfolding Write48 req_op.simps req_slots.simps
    by (rule write_access_run [OF X]) (simp add: b53_mdio_write48_def w)
next
  case (Write64 v)
  obtain e bus where w: "b53_mdio_write_loop T 4 (priv dev) 0 v = (e, bus)"
    by (cases "b53_mdio_write_loop T 4 (priv dev) 0 v")
  obtain X where X: "mii_log bus = mii_log (priv dev) @ X" "staging 0 (slot_words 4 v) e X"
    using b53_mdio_write_loop_run [of 0 4 T "priv dev" v] w by auto
  show ?thesis
    unfolding Write64 req_op.simps req_slots.simps
    by (rule write_access_run [OF X]) (simp add: b53_mdio_write64_def w)
qed

subsection \<open>The transactions a call issues\<close>

lemma b53_mdio_op_issued:
  "op_run (current_page dev) page (push_bit 8 (ucast reg) OR op)
     (fst (b53_mdio_op T dev page reg op))
     (current_page (snd (b53_mdio_op T dev page reg op)))
     (issued dev (snd (b53_mdio_op T dev page reg op)))"
  "mii_log (priv (snd (b53_mdio_op T dev page reg op))) =
     mii_log (priv dev) @ issued dev (snd (b53_mdio_op T dev page reg op))"
  using b53_mdio_op_run [of T dev page reg op] by (auto simp: issued_def)

lemma b53_mdio_ops_issued:
  "access_run (current_page dev) page (push_bit 8 (ucast reg) OR req_op rq) (req_slots rq)
     (fst (b53_mdio_ops T rq dev page reg))
     (current_page (snd (b53_mdio_ops T rq dev page reg)))
     (issued dev (snd (b53_mdio_ops T rq dev page reg)))"
  "mii_log (priv (snd (b53_mdio_ops T rq dev page reg))) =
     mii_log (priv dev) @ issued dev (snd (b53_mdio_ops T rq dev page reg))"
  using b53_mdio_ops_run [of T rq dev page reg] by (auto simp: issued_def)


subsection \<open>Page-select writes\<close>

lemma page_selects_append [simp]: "page_selects (xs @ ys) = page_selects xs @ page_selects ys"
  by (simp add: page_selects_def)

lemma page_selects_staged [simp]: "page_selects (staged i vs) = []"
  by (auto simp: page_selects_def staged_def b53_regs filter_empty_conv)

lemma page_selects_sel_txns [simp]: "page_selects (sel_txns cp page) = sel_txns cp page"
  by (simp add: page_selects_def sel_txns_def)

lemma page_selects_reads [simp]: "page_selects (map (MdioRead r) rs) = []"
  by (simp add: page_selects_def)

lemma page_selects_slot_reads: "\<forall>t \<in> set Z. is_slot_read t \<Longrightarrow> page_selects Z = []"
  unfolding page_selects_def filter_empty_conv
proof
  fix t assume "\<forall>t \<in> set Z. is_slot_read t" "t \<in> set Z"
  then have "is_slot_read t" by simp
  then show "\<not> is_write_to REG_MII_PAGE t" by (cases t) simp_all
qed

lemma page_selects_Cons [simp]:
  "page_selects (MdioWrite r v e # xs) =
     (if r = REG_MII_PAGE then MdioWrite r v e # page_selects xs else page_selects xs)"
  "page_selects (MdioRead r e # xs) = page_selects xs"
  "page_selects [] = []"
  by (simp_all add: page_selects_def)

lemma addr_not_page [simp]: "REG_MII_ADDR \<noteq> REG_MII_PAGE"
  by (simp add: b53_regs)

lemma slot_not_page [simp]: "0 \<le> j \<Longrightarrow> REG_MII_DATA0 + j \<noteq> REG_MII_PAGE"
  by (simp add: b53_regs)

text \<open>The page-select writes of \<open>b53_mdio_op\<close>.\<close>

lemma op_run_page_selects:
  assumes "op_run cp page aw e cp' Y"
  shows "page_selects Y =
    (if cp = page then []
     else [MdioWrite REG_MII_PAGE (push_bit 8 (ucast page) OR REG_MII_PAGE_ENABLE)
             (if cp' = page then 0 else e)])"
  using assms by cases (auto simp: sel_txns_def)

lemma op_run_success: "op_run cp page aw 0 cp' Y \<Longrightarrow> cp' = page"
  by (erule op_run.cases) auto

lemma staging_page_selects: "staging i vs e X \<Longrightarrow> page_selects X = []"
  by (erule staging.cases) auto

lemma access_run_success: "access_run cp page aw vs 0 cp' X \<Longrightarrow> cp' = page"
  by (erule access_run.cases) (auto dest: op_run_success)

lemma access_run_page_selects_cached:
  "access_run cp page aw vs e cp' X \<Longrightarrow> cp = page \<Longrightarrow> page_selects X = []"
  by (erule access_run.cases)
    (auto simp: staging_page_selects op_run_page_selects page_selects_slot_reads)


lemma writes_accepted_append [simp]:
  "writes_accepted (xs @ ys) \<longleftrightarrow> writes_accepted xs \<and> writes_accepted ys"
  by (auto simp: writes_accepted_def)

lemma writes_accepted_Cons [simp]:
  "writes_accepted (MdioWrite r v e # xs) \<longleftrightarrow> e = 0 \<and> writes_accepted xs"
  "writes_accepted (MdioRead r e # xs) \<longleftrightarrow> writes_accepted xs"
  "writes_accepted []"
  by (auto simp: writes_accepted_def)

lemma length_req_slots: "length (req_slots rq) \<le> 4"
  by (cases rq) (simp_all add: eval_nat_numeral)

lemma is_slot_DATA0_add [simp]: "is_slot (REG_MII_DATA0 + int k) \<longleftrightarrow> k \<le> 3"
  by (auto simp: is_slot_def b53_regs)



lemma access_run_selects_first:
  assumes "access_run cp page aw vs e cp' X" "cp \<noteq> page" "length vs \<le> 4"
    and "\<forall>t \<in> set X. is_slot_write t \<longrightarrow> txn_ret t = 0"
  shows "\<exists>e1. page_selects X =
    [MdioWrite REG_MII_PAGE (push_bit 8 (ucast page) OR REG_MII_PAGE_ENABLE) e1]"
  using assms(1)
proof cases
  case acc_stage_failed
  then show ?thesis
    using assms(3,4) by (auto elim!: staging.cases)
next
  case (acc_op_failed Y)
  then show ?thesis
    using assms(2) op_run_page_selects [of cp page aw e cp' Y] by simp
next
  case (acc_done Y Z)
  then show ?thesis
    using assms(2) op_run_page_selects [of cp page aw 0 cp' Y]
    by (simp add: page_selects_slot_reads)
qed

text \<open>The equations that evaluate a call on a concrete bus.\<close>

lemmas b53_eval =
  script_ops_def script_dev_def b53_phy_probe_def slot_ops_def is_slot_def
  b53_mdio_read8_def b53_mdio_read16_def b53_mdio_read32_def b53_mdio_read48_def
  b53_mdio_read64_def b53_mdio_write8_def b53_mdio_write16_def b53_mdio_write32_def
  b53_mdio_write48_def b53_mdio_write64_def b53_mdio_op_def
  b53_mdio_op_poll.simps b53_mdio_write_loop.simps b53_mdio_read_loop.simps
  mdiobus_read_def mdiobus_write_def b53_regs b53_bits EIO_def
  issued_def page_selects_def polls_def writes_accepted_def slot_writes_accepted_def
  op_pending_def is_done_poll_def

subsection \<open>Refused writes\<close>

lemma is_slot_not_regs [simp]: "\<not> is_slot REG_MII_PAGE" "\<not> is_slot REG_MII_ADDR"
  by (simp_all add: is_slot_def b53_regs)

lemma slot_not_addr [simp]: "0 \<le> j \<Longrightarrow> REG_MII_DATA0 + j \<noteq> REG_MII_ADDR"
  by (simp add: b53_regs)

lemma page_not_addr [simp]: "REG_MII_PAGE \<noteq> REG_MII_ADDR"
  by (simp add: b53_regs)

lemma staged_set:
  "t \<in> set (staged i vs) \<Longrightarrow> \<exists>j v. 0 \<le> j \<and> t = MdioWrite (REG_MII_DATA0 + j) v 0"
  by (auto simp: staged_def)

lemma length_staged [simp]: "length (staged i vs) = length vs"
  by (simp add: staged_def)

lemma staged_nth: "staged 0 vs = map (\<lambda>j. MdioWrite (REG_MII_DATA0 + int j) (vs ! j) 0) [0..<length vs]"
  by (rule nth_equalityI) (simp_all add: staged_def nth_enumerate_eq)

lemma op_run_set:
  assumes "op_run cp page aw e cp' Y" "t \<in> set Y"
  shows "is_write_to REG_MII_PAGE t \<or> is_write_to REG_MII_ADDR t \<or> is_read_of REG_MII_ADDR t"
  using assms by cases (auto simp: sel_txns_def split: if_splits)

lemma op_run_no_slot_write: "op_run cp page aw e cp' Y \<Longrightarrow> t \<in> set Y \<Longrightarrow> \<not> is_slot_write t"
  by (drule (1) op_run_set) (cases t; auto)

lemma slot_read_no_write:
  "is_slot_read t \<Longrightarrow> \<not> is_write t \<and> \<not> is_write_to r t \<and> \<not> is_slot_write t \<and>
     \<not> is_read_of REG_MII_ADDR t"
  by (cases t) auto

text \<open>What a refused page-select or address write means for \<open>b53_mdio_op\<close>.\<close>

lemma op_run_select_refused:
  assumes "op_run cp page aw e cp' Y" "t \<in> set Y" "is_write_to REG_MII_PAGE t" "txn_ret t \<noteq> 0"
  shows "e = txn_ret t \<and> cp' = cp"
  using assms by cases (auto simp: sel_txns_def split: if_splits)

lemma op_run_addr_refused:
  assumes "op_run cp page aw e cp' Y" "t \<in> set Y" "is_write_to REG_MII_ADDR t" "txn_ret t \<noteq> 0"
  shows "e = txn_ret t \<and> cp' = page"
  using assms by cases (auto simp: sel_txns_def split: if_splits)

lemma op_run_cp_changed:
  assumes "op_run cp page aw e cp' Y" "cp' \<noteq> cp"
  shows "cp' = page \<and>
    MdioWrite REG_MII_PAGE (push_bit 8 (ucast page) OR REG_MII_PAGE_ENABLE) 0 \<in> set Y"
  using assms by cases (auto simp: sel_txns_def split: if_splits)

lemma staging_set:
  "staging i vs e X \<Longrightarrow> t \<in> set X \<Longrightarrow>
     \<exists>j v e'. 0 \<le> j \<and> t = MdioWrite (REG_MII_DATA0 + j) v e'"
  by (erule staging.cases) (auto dest: staged_set intro: exI [of _ "int i + int k" for i k])

lemma access_run_select_refused:
  assumes "access_run cp page aw vs e cp' X" "t \<in> set X" "is_write_to REG_MII_PAGE t"
    "txn_ret t \<noteq> 0"
  shows "e = txn_ret t \<and> cp' = cp"
  using assms(1)
proof cases
  case acc_stage_failed
  then show ?thesis
    using assms(2,3) by (auto dest: staging_set)
next
  case (acc_op_failed Y)
  then show ?thesis
    using assms(2-4) op_run_select_refused [of cp page aw e cp' Y t]
    by (auto dest: staged_set)
next
  case (acc_done Y Z)
  then show ?thesis
    using assms(2-4) op_run_select_refused [of cp page aw 0 cp' Y t]
    by (auto dest: staged_set slot_read_no_write)
qed

lemma access_run_addr_refused:
  assumes "access_run cp page aw vs e cp' X" "t \<in> set X" "is_write_to REG_MII_ADDR t"
    "txn_ret t \<noteq> 0"
  shows "e = txn_ret t \<and> cp' = page"
  using assms(1)
proof cases
  case acc_stage_failed
  then show ?thesis
    using assms(2,3) by (auto dest: staging_set)
next
  case (acc_op_failed Y)
  then show ?thesis
    using assms(2-4) op_run_addr_refused [of cp page aw e cp' Y t]
    by (auto dest: staged_set)
next
  case (acc_done Y Z)
  then show ?thesis
    using assms(2-4) op_run_addr_refused [of cp page aw 0 cp' Y t]
    by (auto dest: staged_set slot_read_no_write)
qed

lemma access_run_cp_changed:
  assumes "access_run cp page aw vs e cp' X" "cp' \<noteq> cp"
  shows "cp' = page \<and>
    MdioWrite REG_MII_PAGE (push_bit 8 (ucast page) OR REG_MII_PAGE_ENABLE) 0 \<in> set X"
  using assms by cases (auto dest: op_run_cp_changed)

text \<open>A refused staging write.\<close>

lemma staged_slot_accepted: "t \<in> set (staged i vs) \<Longrightarrow> txn_ret t = 0"
  by (auto simp: staged_def)

lemma staged_is_slot_write:
  "t \<in> set (staged i vs) \<Longrightarrow> i + length vs \<le> 4 \<Longrightarrow> is_slot_write t"
  by (auto simp: staged_def in_set_enumerate_eq)

lemma access_run_stage_refused:
  assumes "access_run cp page aw vs e cp' X" "t \<in> set X" "is_slot_write t" "txn_ret t \<noteq> 0"
  shows "e = txn_ret t \<and> last X = t \<and> (\<forall>u \<in> set X. is_slot_write u) \<and> cp' = cp"
  using assms(1)
proof cases
  case acc_stage_failed
  from acc_stage_failed(2) show ?thesis
  proof cases
    case staging_through
    then show ?thesis
      using assms(2,4) by (auto dest: staged_slot_accepted)
  next
    case (staging_failed k)
    then have t: "t = MdioWrite (REG_MII_DATA0 + int k) (vs ! k) e"
      using assms(2,4) by (auto dest: staged_slot_accepted)
    then have "k \<le> 3"
      using assms(3) by simp
    then have "\<forall>u \<in> set (staged 0 (take k vs)). is_slot_write u"
      using staged_is_slot_write [of _ 0 "take k vs"] by simp
    then show ?thesis
      using staging_failed t acc_stage_failed(1) assms(3) by auto
  qed
next
  case (acc_op_failed Y)
  then show ?thesis
    using assms(2-4) by (auto dest: staged_slot_accepted op_run_no_slot_write)
next
  case (acc_done Y Z)
  then show ?thesis
    using assms(2-4)
    by (auto dest: staged_slot_accepted op_run_no_slot_write slot_read_no_write)
qed

subsection \<open>Staged words\<close>

text \<open>The slots of a write request, as the bits of its value.\<close>

lemma ucast_and_ffff: "(ucast (w AND 0xffff) :: 16 word) = ucast (w :: 'a::len word)"
proof -
  have eq: "w AND 0xffff = take_bit 16 w"
    by (simp add: take_bit_eq_mask mask_eq_exp_minus_1)
  show ?thesis
    unfolding eq by (rule bit_word_eqI) (simp add: bit_simps)
qed

lemma ucast_drop_ucast32:
  "(ucast (drop_bit n (ucast (v :: 32 word) :: 64 word)) :: 16 word) = ucast (drop_bit n v)"
  by (rule bit_word_eqI) (auto simp add: bit_simps dest: bit_imp_le_length)

lemma ucast_ucast8: "(ucast (ucast (v :: 8 word) :: 64 word) :: 16 word) = ucast v"
  by (rule bit_word_eqI) (auto simp add: bit_simps)

lemma ucast_ucast16: "(ucast (ucast (v :: 16 word) :: 64 word) :: 16 word) = v"
  by (rule bit_word_eqI) (auto simp add: bit_simps)

lemma upt_small: "[0..<2] = [0, 1]" "[0..<3] = [0, 1, 2]" "[0..<4] = [0, 1, 2, 3]"
  by (simp_all add: upt_rec)

lemma slot_words_small:
  "slot_words 2 v = [ucast v, ucast (drop_bit 16 v)]"
  "slot_words 3 v = [ucast v, ucast (drop_bit 16 v), ucast (drop_bit 32 v)]"
  "slot_words 4 v = [ucast v, ucast (drop_bit 16 v), ucast (drop_bit 32 v), ucast (drop_bit 48 v)]"
  by (simp_all add: eval_nat_numeral ucast_and_ffff)

lemma req_slots_bits:
  assumes "is_write_req rq"
  shows "req_slots rq =
    map (\<lambda>i. ucast (drop_bit (16 * i) (req_value rq) AND 0xffff))
      [0..<(req_width rq + 15) div 16]"
  using assms
  by (cases rq)
    (simp_all add: ucast_and_ffff upt_small slot_words_small ucast_drop_ucast32 ucast_ucast8
      ucast_ucast16)

lemma length_req_slots_width:
  "is_write_req rq \<Longrightarrow> length (req_slots rq) = (req_width rq + 15) div 16"
  by (cases rq) (simp_all add: slot_words_small)

lemma op_run_trigger:
  "op_run cp page aw 0 cp' Y \<Longrightarrow> MdioWrite REG_MII_ADDR aw 0 \<in> set Y"
  by (erule op_run.cases) (auto simp: EIO_def split: if_splits)

lemma access_run_staged_first:
  assumes "access_run cp page aw vs e cp' X" "slot_writes_accepted X" "length vs \<le> 4"
  shows "take (length vs) X = staged 0 vs \<and>
    (\<forall>t \<in> set (drop (length vs) X). \<not> is_slot_write t) \<and>
    (e = 0 \<longrightarrow> MdioWrite REG_MII_ADDR aw 0 \<in> set (drop (length vs) X))"
  using assms(1)
proof cases
  case acc_stage_failed
  from acc_stage_failed(2) show ?thesis
  proof cases
    case staging_through
    then show ?thesis
      using acc_stage_failed(3) by simp
  next
    case (staging_failed k)
    then have "is_slot_write (MdioWrite (REG_MII_DATA0 + int k) (vs ! k) e)"
      using assms(3) by simp
    then show ?thesis
      using staging_failed assms(2) by (auto simp: slot_writes_accepted_def)
  qed
next
  case (acc_op_failed Y)
  then show ?thesis
    by (auto dest: op_run_no_slot_write)
next
  case (acc_done Y Z)
  then show ?thesis
    by (auto dest: op_run_no_slot_write slot_read_no_write op_run_trigger)
qed

lemma req_slots_nth:
  assumes "is_write_req rq" "i < length (req_slots rq)"
  shows "req_slots rq ! i = ucast (drop_bit (16 * i) (req_value rq) AND 0xffff)"
proof -
  let ?f = "\<lambda>i. ucast (drop_bit (16 * i) (req_value rq) AND 0xffff) :: 16 word"
  let ?n = "(req_width rq + 15) div 16"
  have n: "i < ?n"
    using assms length_req_slots_width by simp
  have "req_slots rq ! i = map ?f [0..<?n] ! i"
    using req_slots_bits [OF assms(1)] by (rule arg_cong)
  also have "\<dots> = ?f i"
    using n by simp
  finally show ?thesis .
qed

lemma staged_req_slots:
  assumes "is_write_req rq"
  shows "staged 0 (req_slots rq) =
    map (\<lambda>i. MdioWrite (REG_MII_DATA0 + int i)
           (ucast (drop_bit (16 * i) (req_value rq) AND 0xffff)) 0)
      [0..<(req_width rq + 15) div 16]"
  unfolding staged_nth length_req_slots_width [OF assms, symmetric]
  by (rule map_cong [OF refl]) (simp add: req_slots_nth [OF assms])

subsection \<open>Polls\<close>

lemma op_pending_iff: "op_pending r \<longleftrightarrow> \<not> 4 dvd r"
proof -
  have "(3 :: 16 word) = mask 2"
    by (simp add: mask_eq_exp_minus_1)
  then have "(word_of_int r :: 16 word) AND 3 = take_bit 2 (word_of_int r)"
    by (simp add: take_bit_eq_mask)
  also have "\<dots> = word_of_int (take_bit 2 r)"
    by (rule bit_word_eqI) (auto simp add: bit_simps)
  finally have "(word_of_int r :: 16 word) AND 3 = word_of_int (take_bit 2 r)" .
  moreover have "take_bit 2 r = r mod 4"
    by (simp add: take_bit_eq_mod)
  moreover have "(word_of_int (r mod 4) :: 16 word) = 0 \<longleftrightarrow> r mod 4 = 0"
  proof -
    have "0 \<le> r mod 4" "r mod 4 < 4"
      by simp_all
    then show ?thesis
      by (auto simp: word_of_int_eq_0_iff dest: zdvd_imp_le)
  qed
  ultimately show ?thesis
    by (simp add: op_pending_def b53_bits dvd_eq_mod_eq_0)
qed

text \<open>The polls of \<open>b53_mdio_op\<close>.\<close>

lemma polls_append [simp]: "polls (xs @ ys) = polls xs @ polls ys"
  by (simp add: polls_def)

lemma polls_Cons [simp]:
  "polls (MdioWrite r v e # xs) = polls xs"
  "polls (MdioRead r e # xs) = (if r = REG_MII_ADDR then MdioRead r e # polls xs else polls xs)"
  "polls [] = []"
  by (simp_all add: polls_def)

lemma polls_sel_txns [simp]: "polls (sel_txns cp page) = []"
  by (simp add: sel_txns_def)

lemma polls_reads [simp]: "polls (map (MdioRead REG_MII_ADDR) rs) = map (MdioRead REG_MII_ADDR) rs"
  by (induction rs) simp_all

lemma writes_accepted_reads [simp]: "writes_accepted (map (MdioRead r) rs)"
  by (simp add: writes_accepted_def)

lemma writes_accepted_sel_txns [simp]: "writes_accepted (sel_txns cp page)"
  by (simp add: sel_txns_def)

lemma is_done_poll_simps [simp]:
  "is_done_poll (MdioWrite r v e) = False"
  "is_done_poll (MdioRead r e) \<longleftrightarrow> r = REG_MII_ADDR \<and> \<not> op_pending e"
  by (simp_all add: is_done_poll_def)

lemma no_done_poll_sel_txns [simp]: "t \<in> set (sel_txns cp page) \<Longrightarrow> \<not> is_done_poll t"
  by (auto simp: sel_txns_def split: if_splits)

text \<open>
  The four ways \<open>b53_mdio_op\<close> ends, by the polls it made: a refused write and no poll;
  up to five polls of which the last alone saw the operation complete; five polls that
  all saw it pending.
\<close>

lemma op_run_polls:
  assumes "op_run cp page aw e cp' Y"
  shows "(e \<noteq> 0 \<and> \<not> writes_accepted Y \<and> polls Y = [] \<and> (\<forall>t \<in> set Y. \<not> is_done_poll t)) \<or>
    (e = 0 \<and> writes_accepted Y \<and>
       (\<exists>ps c. polls Y = map (MdioRead REG_MII_ADDR) (ps @ [c]) \<and> length ps < 5 \<and>
          (\<forall>r \<in> set ps. op_pending r) \<and> \<not> op_pending c \<and>
          last Y = MdioRead REG_MII_ADDR c \<and> Y \<noteq> [] \<and>
          (\<forall>t \<in> set (butlast Y). \<not> is_done_poll t))) \<or>
    (e = - EIO \<and> writes_accepted Y \<and>
       (\<exists>ps. polls Y = map (MdioRead REG_MII_ADDR) ps \<and> length ps = 5 \<and>
          (\<forall>r \<in> set ps. op_pending r) \<and> Y \<noteq> [] \<and>
          (\<forall>t \<in> set Y. \<not> is_done_poll t)))"
  using assms
proof cases
  case op_select_failed
  then show ?thesis by simp
next
  case op_addr_failed
  then show ?thesis by auto
next
  case (op_polled k rs)
  from op_polled(4) show ?thesis
  proof cases
    case (poll_done ps c)
    have "butlast Y = sel_txns cp page @ MdioWrite REG_MII_ADDR aw 0 # map (MdioRead REG_MII_ADDR) ps"
      using op_polled(3) poll_done(2) by (simp add: butlast_append)
    then have "\<forall>t \<in> set (butlast Y). \<not> is_done_poll t"
      using poll_done(3) by auto
    then show ?thesis
      using op_polled(1,3) poll_done by auto
  next
    case poll_out
    then show ?thesis
      using op_polled(1,3) by (auto simp: EIO_def)
  qed
qed

subsection \<open>Writing and reading back\<close>

text \<open>Words split into 16-bit pieces and put together again.\<close>

lemma word_of_int_uint_ucast: "(word_of_int (uint (w :: 'a::len word)) :: 'b::len word) = ucast w"
  by (rule bit_word_eqI) (simp add: bit_simps)

lemma rt8: "(ucast ((ucast (ucast (v :: 8 word) :: 16 word) :: 32 word) AND 0xff) :: 8 word) = v"
proof -
  have eq: "(0xff :: 32 word) = mask 8"
    by (simp add: mask_eq_exp_minus_1)
  show ?thesis
    unfolding eq by (rule bit_word_eqI) (auto simp add: bit_simps)
qed

lemma rt32:
  "(ucast (ucast (v :: 32 word) :: 16 word) :: 32 word) OR
     push_bit 16 (ucast (ucast (drop_bit 16 v) :: 16 word)) = v"
proof (rule bit_word_eqI)
  fix n assume "n < LENGTH(32)"
  then consider "n < 16" | "16 \<le> n" "n < 32"
    by fastforce
  then show "bit (ucast (ucast v :: 16 word) OR
      push_bit 16 (ucast (ucast (drop_bit 16 v) :: 16 word)) :: 32 word) n = bit v n"
    by cases (auto simp add: bit_simps)
qed

lemma rt64:
  "((push_bit 48 (ucast (ucast (drop_bit 48 (v :: 64 word)) :: 16 word)) OR
      push_bit 32 (ucast (ucast (drop_bit 32 v) :: 16 word))) OR
     push_bit 16 (ucast (ucast (drop_bit 16 v) :: 16 word))) OR
   ucast (ucast v :: 16 word) = v"
proof (rule bit_word_eqI)
  fix n assume "n < LENGTH(64)"
  then consider "n < 16" | "16 \<le> n" "n < 32" | "32 \<le> n" "n < 48" | "48 \<le> n" "n < 64"
    by fastforce
  then show "bit (((push_bit 48 (ucast (ucast (drop_bit 48 v) :: 16 word)) OR
      push_bit 32 (ucast (ucast (drop_bit 32 v) :: 16 word))) OR
     push_bit 16 (ucast (ucast (drop_bit 16 v) :: 16 word))) OR
   ucast (ucast v :: 16 word) :: 64 word) n = bit v n"
    by cases (auto simp add: bit_simps)
qed

lemma high_bits_48:
  assumes "(v :: 64 word) < 2 ^ 48" "48 \<le> m"
  shows "\<not> bit v m"
proof -
  have "take_bit 48 v = v"
    using less_mask_eq [OF assms(1)] by (simp add: take_bit_eq_mask)
  then have "bit v m = bit (take_bit 48 v) m"
    by simp
  then show ?thesis
    using assms(2) by (simp add: bit_take_bit_iff)
qed

lemma rt48:
  assumes "(v :: 64 word) < 2 ^ 48"
  shows "(push_bit 32 (ucast (ucast (drop_bit 32 v) :: 16 word)) OR
      push_bit 16 (ucast (ucast (drop_bit 16 v) :: 16 word))) OR
     ucast (ucast v :: 16 word) = v"
proof (rule bit_word_eqI)
  fix n assume "n < LENGTH(64)"
  consider "n < 16" | "16 \<le> n" "n < 32" | "32 \<le> n" "n < 48" | "48 \<le> n"
    by fastforce
  then show "bit ((push_bit 32 (ucast (ucast (drop_bit 32 v) :: 16 word)) OR
      push_bit 16 (ucast (ucast (drop_bit 16 v) :: 16 word))) OR
     ucast (ucast v :: 16 word) :: 64 word) n = bit v n"
  proof cases
    case 4
    then have "\<not> bit v n"
      using high_bits_48 [OF assms] by simp
    then show ?thesis
      using 4 by (auto simp add: bit_simps)
  qed (auto simp add: bit_simps)
qed

text \<open>Writing and reading back on the bus that keeps its data registers.\<close>

lemmas slot_eval =
  slot_ops_def is_slot_def
  b53_mdio_read8_def b53_mdio_read16_def b53_mdio_read32_def b53_mdio_read48_def
  b53_mdio_read64_def b53_mdio_write8_def b53_mdio_write16_def b53_mdio_write32_def
  b53_mdio_write48_def b53_mdio_write64_def b53_mdio_op_def
  b53_mdio_op_poll.simps b53_mdio_write_loop.simps b53_mdio_read_loop.simps
  mdiobus_read_def mdiobus_write_def b53_regs b53_bits EIO_def
  word_of_int_uint_ucast ucast_and_ffff

lemma round_trip8:
  "fst (b53_mdio_write8 slot_ops dev page reg v) = 0 \<and>
   fst (b53_mdio_read8 slot_ops (snd (b53_mdio_write8 slot_ops dev page reg v)) page reg) = Inr v"
  by (simp add: slot_eval rt8)

lemma round_trip16:
  "fst (b53_mdio_write16 slot_ops dev page reg v) = 0 \<and>
   fst (b53_mdio_read16 slot_ops (snd (b53_mdio_write16 slot_ops dev page reg v)) page reg) = Inr v"
  by (simp add: slot_eval)

lemma round_trip32:
  "fst (b53_mdio_write32 slot_ops dev page reg v) = 0 \<and>
   fst (b53_mdio_read32 slot_ops (snd (b53_mdio_write32 slot_ops dev page reg v)) page reg) = Inr v"
  by (simp add: slot_eval rt32)

lemma round_trip64:
  "fst (b53_mdio_write64 slot_ops dev page reg v) = 0 \<and>
   fst (b53_mdio_read64 slot_ops (snd (b53_mdio_write64 slot_ops dev page reg v)) page reg) = Inr v"
  by (simp add: slot_eval rt64)

lemma round_trip48:
  "v < 2 ^ 48 \<Longrightarrow>
   fst (b53_mdio_write48 slot_ops dev page reg v) = 0 \<and>
   fst (b53_mdio_read48 slot_ops (snd (b53_mdio_write48 slot_ops dev page reg v)) page reg) = Inr v"
  by (simp add: slot_eval rt48)

subsection \<open>The value of a read\<close>

text \<open>The data reads of a read.\<close>

lemma slot_reads_simps [simp]:
  "slot_reads (xs @ ys) = slot_reads xs @ slot_reads ys"
  "slot_reads (MdioRead r e # xs) = (if is_slot r then MdioRead r e # slot_reads xs else slot_reads xs)"
  "slot_reads (MdioWrite r v e # xs) = slot_reads xs"
  "slot_reads [] = []"
  by (simp_all add: slot_reads_def)

lemma is_slot_regs [simp]:
  "is_slot REG_MII_DATA0" "is_slot REG_MII_DATA1" "is_slot REG_MII_DATA2" "is_slot REG_MII_DATA3"
  by (simp_all add: is_slot_def b53_regs)

lemma slot_reads_op [simp]:
  "slot_reads (issued dev (snd (b53_mdio_op T dev page reg op))) = []"
proof -
  have "\<not> is_slot_read t" if "t \<in> set (issued dev (snd (b53_mdio_op T dev page reg op)))" for t
    using op_run_set [OF b53_mdio_op_issued(1) that] by (cases t) auto
  then show ?thesis
    by (simp add: slot_reads_def filter_empty_conv)
qed

text \<open>What a read adds to the traffic of \<open>b53_mdio_op\<close>.\<close>

lemma issued_after_op:
  assumes "mii_log (priv dev') =
    mii_log (priv (snd (b53_mdio_op T dev page reg op))) @ Z"
  shows "slot_reads (issued dev dev') = slot_reads Z"
proof -
  have "mii_log (priv dev') =
      mii_log (priv dev) @ issued dev (snd (b53_mdio_op T dev page reg op)) @ Z"
    using assms b53_mdio_op_issued(2) [of T dev page reg op] by simp
  then have "issued dev dev' = issued dev (snd (b53_mdio_op T dev page reg op)) @ Z"
    by (rule issuedI)
  then show ?thesis
    by simp
qed

lemma b53_mdio_read_loop_2:
  "\<exists>r2 r1 r0.
     mii_log (snd (b53_mdio_read_loop T bus 2 0)) =
       mii_log bus @ [MdioRead REG_MII_DATA2 r2, MdioRead REG_MII_DATA1 r1,
         MdioRead REG_MII_DATA0 r0] \<and>
     fst (b53_mdio_read_loop T bus 2 0) =
       push_bit 32 (word_of_int r2) OR push_bit 16 (word_of_int r1) OR word_of_int r0"
  by (simp add: b53_mdio_read_loop.simps case_prod_beta b53_regs or.assoc)

lemma b53_mdio_read_loop_3:
  "\<exists>r3 r2 r1 r0.
     mii_log (snd (b53_mdio_read_loop T bus 3 0)) =
       mii_log bus @ [MdioRead REG_MII_DATA3 r3, MdioRead REG_MII_DATA2 r2,
         MdioRead REG_MII_DATA1 r1, MdioRead REG_MII_DATA0 r0] \<and>
     fst (b53_mdio_read_loop T bus 3 0) =
       push_bit 48 (word_of_int r3) OR push_bit 32 (word_of_int r2) OR
       push_bit 16 (word_of_int r1) OR word_of_int r0"
  by (simp add: b53_mdio_read_loop.simps case_prod_beta b53_regs or.assoc)

text \<open>
  A read whose operation succeeded returns success whatever the data reads returned,
  with the value put together from their returns.
\<close>

lemma b53_mdio_read8_value:
  assumes "fst (b53_mdio_op T dev page reg REG_MII_ADDR_READ) = 0"
  shows "\<exists>r. slot_reads (issued dev (snd (b53_mdio_read8 T dev page reg))) =
        [MdioRead REG_MII_DATA0 r] \<and>
      fst (b53_mdio_read8 T dev page reg) = Inr (ucast ((word_of_int r :: 32 word) AND 0xff))"
proof -
  let ?O = "b53_mdio_op T dev page reg REG_MII_ADDR_READ"
  let ?r = "fst (mii_read T (mii_hw (priv (snd ?O))) B53_PSEUDO_PHY REG_MII_DATA0)"
  have "mii_log (priv (snd (b53_mdio_read8 T dev page reg))) =
      mii_log (priv (snd ?O)) @ [MdioRead REG_MII_DATA0 ?r]"
    using assms by (simp add: b53_mdio_read8_def case_prod_beta)
  from issued_after_op [OF this] show ?thesis
    using assms by (simp add: b53_mdio_read8_def case_prod_beta)
qed

lemma b53_mdio_read16_value:
  assumes "fst (b53_mdio_op T dev page reg REG_MII_ADDR_READ) = 0"
  shows "\<exists>r. slot_reads (issued dev (snd (b53_mdio_read16 T dev page reg))) =
        [MdioRead REG_MII_DATA0 r] \<and>
      fst (b53_mdio_read16 T dev page reg) = Inr (word_of_int r)"
proof -
  let ?O = "b53_mdio_op T dev page reg REG_MII_ADDR_READ"
  let ?r = "fst (mii_read T (mii_hw (priv (snd ?O))) B53_PSEUDO_PHY REG_MII_DATA0)"
  have "mii_log (priv (snd (b53_mdio_read16 T dev page reg))) =
      mii_log (priv (snd ?O)) @ [MdioRead REG_MII_DATA0 ?r]"
    using assms by (simp add: b53_mdio_read16_def case_prod_beta)
  from issued_after_op [OF this] show ?thesis
    using assms by (simp add: b53_mdio_read16_def case_prod_beta)
qed

lemma b53_mdio_read32_value:
  assumes "fst (b53_mdio_op T dev page reg REG_MII_ADDR_READ) = 0"
  shows "\<exists>r0 r1. slot_reads (issued dev (snd (b53_mdio_read32 T dev page reg))) =
        [MdioRead REG_MII_DATA0 r0, MdioRead REG_MII_DATA1 r1] \<and>
      fst (b53_mdio_read32 T dev page reg) =
        Inr (word_of_int r0 OR push_bit 16 (word_of_int r1))"
proof -
  let ?O = "b53_mdio_op T dev page reg REG_MII_ADDR_READ"
  let ?r0 = "fst (mii_read T (mii_hw (priv (snd ?O))) B53_PSEUDO_PHY REG_MII_DATA0)"
  let ?h0 = "snd (mii_read T (mii_hw (priv (snd ?O))) B53_PSEUDO_PHY REG_MII_DATA0)"
  let ?r1 = "fst (mii_read T ?h0 B53_PSEUDO_PHY REG_MII_DATA1)"
  have "mii_log (priv (snd (b53_mdio_read32 T dev page reg))) =
      mii_log (priv (snd ?O)) @ [MdioRead REG_MII_DATA0 ?r0, MdioRead REG_MII_DATA1 ?r1]"
    using assms by (simp add: b53_mdio_read32_def case_prod_beta)
  from issued_after_op [OF this] show ?thesis
    using assms by (simp add: b53_mdio_read32_def case_prod_beta)
qed

lemma b53_mdio_read48_value:
  assumes "fst (b53_mdio_op T dev page reg REG_MII_ADDR_READ) = 0"
  shows "\<exists>r2 r1 r0. slot_reads (issued dev (snd (b53_mdio_read48 T dev page reg))) =
        [MdioRead REG_MII_DATA2 r2, MdioRead REG_MII_DATA1 r1, MdioRead REG_MII_DATA0 r0] \<and>
      fst (b53_mdio_read48 T dev page reg) =
        Inr (push_bit 32 (word_of_int r2) OR push_bit 16 (word_of_int r1) OR word_of_int r0)"
proof -
  let ?O = "b53_mdio_op T dev page reg REG_MII_ADDR_READ"
  obtain r2 r1 r0 where
    loop: "mii_log (snd (b53_mdio_read_loop T (priv (snd ?O)) 2 0)) =
        mii_log (priv (snd ?O)) @ [MdioRead REG_MII_DATA2 r2, MdioRead REG_MII_DATA1 r1,
          MdioRead REG_MII_DATA0 r0]"
      "fst (b53_mdio_read_loop T (priv (snd ?O)) 2 0) =
        push_bit 32 (word_of_int r2) OR push_bit 16 (word_of_int r1) OR word_of_int r0"
    using b53_mdio_read_loop_2 [of T "priv (snd ?O)"] by blast
  have "mii_log (priv (snd (b53_mdio_read48 T dev page reg))) =
      mii_log (priv (snd ?O)) @ [MdioRead REG_MII_DATA2 r2, MdioRead REG_MII_DATA1 r1,
        MdioRead REG_MII_DATA0 r0]"
    using assms loop(1) by (simp add: b53_mdio_read48_def case_prod_beta)
  from issued_after_op [OF this] show ?thesis
    using assms loop(2) by (simp add: b53_mdio_read48_def case_prod_beta)
qed

lemma b53_mdio_read64_value:
  assumes "fst (b53_mdio_op T dev page reg REG_MII_ADDR_READ) = 0"
  shows "\<exists>r3 r2 r1 r0. slot_reads (issued dev (snd (b53_mdio_read64 T dev page reg))) =
        [MdioRead REG_MII_DATA3 r3, MdioRead REG_MII_DATA2 r2, MdioRead REG_MII_DATA1 r1,
         MdioRead REG_MII_DATA0 r0] \<and>
      fst (b53_mdio_read64 T dev page reg) =
        Inr (push_bit 48 (word_of_int r3) OR push_bit 32 (word_of_int r2) OR
             push_bit 16 (word_of_int r1) OR word_of_int r0)"
proof -
  let ?O = "b53_mdio_op T dev page reg REG_MII_ADDR_READ"
  obtain r3 r2 r1 r0 where
    loop: "mii_log (snd (b53_mdio_read_loop T (priv (snd ?O)) 3 0)) =
        mii_log (priv (snd ?O)) @ [MdioRead REG_MII_DATA3 r3, MdioRead REG_MII_DATA2 r2,
          MdioRead REG_MII_DATA1 r1, MdioRead REG_MII_DATA0 r0]"
      "fst (b53_mdio_read_loop T (priv (snd ?O)) 3 0) =
        push_bit 48 (word_of_int r3) OR push_bit 32 (word_of_int r2) OR
        push_bit 16 (word_of_int r1) OR word_of_int r0"
    using b53_mdio_read_loop_3 [of T "priv (snd ?O)"] by blast
  have "mii_log (priv (snd (b53_mdio_read64 T dev page reg))) =
      mii_log (priv (snd ?O)) @ [MdioRead REG_MII_DATA3 r3, MdioRead REG_MII_DATA2 r2,
        MdioRead REG_MII_DATA1 r1, MdioRead REG_MII_DATA0 r0]"
    using assms loop(1) by (simp add: b53_mdio_read64_def case_prod_beta)
  from issued_after_op [OF this] show ?thesis
    using assms loop(2) by (simp add: b53_mdio_read64_def case_prod_beta)
qed

lemma b53_mdio_read_failed:
  assumes "fst (b53_mdio_op T dev page reg REG_MII_ADDR_READ) \<noteq> 0"
  shows "fst (b53_mdio_read8 T dev page reg) =
      Inl (fst (b53_mdio_op T dev page reg REG_MII_ADDR_READ))"
    "fst (b53_mdio_read16 T dev page reg) =
      Inl (fst (b53_mdio_op T dev page reg REG_MII_ADDR_READ))"
    "fst (b53_mdio_read32 T dev page reg) =
      Inl (fst (b53_mdio_op T dev page reg REG_MII_ADDR_READ))"
    "fst (b53_mdio_read48 T dev page reg) =
      Inl (fst (b53_mdio_op T dev page reg REG_MII_ADDR_READ))"
    "fst (b53_mdio_read64 T dev page reg) =
      Inl (fst (b53_mdio_op T dev page reg REG_MII_ADDR_READ))"
  using assms
  by (simp_all add: b53_mdio_read8_def b53_mdio_read16_def b53_mdio_read32_def
      b53_mdio_read48_def b53_mdio_read64_def case_prod_beta)

section \<open>The claims\<close>

text \<open>
  Claim C1, as amended. On a handle as \<open>b53_phy_probe\<close> leaves it, with \<open>current_page\<close>
  equal to \<open>0xff\<close>, the first call of any of the ten entries for a page other than
  \<open>0xff\<close> issues exactly one write to \<open>REG_MII_PAGE\<close>, carrying \<open>(page << 8) | 1\<close>;
  page 0 is among these pages. For a write entry this holds when the bus refused none
  of its writes to the data registers (a refused one ends the call before the page is
  selected). For page \<open>0xff\<close> the call issues no write to \<open>REG_MII_PAGE\<close>: the value
  set by the probe is itself a page number, and the comparison takes the page as
  selected already.
\<close>

theorem first_access_selects_page:
  "let dev = b53_phy_probe bus; X = issued dev (snd (b53_mdio_ops T rq dev page reg))
   in (page = 0xff \<longrightarrow> page_selects X = []) \<and>
      (page \<noteq> 0xff \<and> slot_writes_accepted X \<longrightarrow>
         (\<exists>e. page_selects X =
            [MdioWrite REG_MII_PAGE (push_bit 8 (ucast page) OR REG_MII_PAGE_ENABLE) e]))"
proof -
  let ?dev = "b53_phy_probe bus"
  note run = b53_mdio_ops_issued(1) [where dev = ?dev and page = page and reg = reg and rq = rq and T = T]
  have cp: "current_page ?dev = 0xff"
    by (simp add: b53_phy_probe_def)
  show ?thesis
    using access_run_page_selects_cached [OF run]
      access_run_selects_first [OF run _ length_req_slots] cp
    by (simp add: Let_def slot_writes_accepted_def)
qed

theorem first_access_selects_page_witness:
  "(0 :: 8 word) \<noteq> 0xff \<and>
   slot_writes_accepted (issued (b53_phy_probe \<lparr>mii_hw = [], mii_log = []\<rparr>)
        (snd (b53_mdio_ops script_ops (Write32 5) (b53_phy_probe \<lparr>mii_hw = [], mii_log = []\<rparr>) 0 9))) \<and>
   (\<exists>e. page_selects (issued (b53_phy_probe \<lparr>mii_hw = [], mii_log = []\<rparr>)
        (snd (b53_mdio_ops script_ops (Write32 5) (b53_phy_probe \<lparr>mii_hw = [], mii_log = []\<rparr>) 0 9)))
      = [MdioWrite REG_MII_PAGE (push_bit 8 (ucast (0 :: 8 word)) OR REG_MII_PAGE_ENABLE) e])"
proof -
  have h: "slot_writes_accepted (issued (b53_phy_probe \<lparr>mii_hw = [], mii_log = []\<rparr>)
        (snd (b53_mdio_ops script_ops (Write32 5) (b53_phy_probe \<lparr>mii_hw = [], mii_log = []\<rparr>) 0 9)))"
    by (simp add: b53_eval)
  show ?thesis
    using h first_access_selects_page [of "\<lparr>mii_hw = [], mii_log = []\<rparr>" script_ops "Write32 5" 0 9]
    by (simp add: Let_def)
qed

text \<open>
  Claim C1 as it was stated fails for page \<open>0xff\<close>: the first read after the probe
  succeeds on a bus without faults, and its whole traffic is the address write, one
  poll and the data read; \<open>REG_MII_PAGE\<close> is never written.
\<close>

theorem first_access_page_ff_counterexample:
  "fst (b53_mdio_ops script_ops Read8 (b53_phy_probe \<lparr>mii_hw = [], mii_log = []\<rparr>) 0xff 0) = 0 \<and>
   mii_log (priv (snd (b53_mdio_ops script_ops Read8
      (b53_phy_probe \<lparr>mii_hw = [], mii_log = []\<rparr>) 0xff 0))) =
     [MdioWrite REG_MII_ADDR 2 0, MdioRead REG_MII_ADDR 0, MdioRead REG_MII_DATA0 0]"
  by (simp add: b53_eval)

text \<open>
  Claim C2, as amended. Each of the five reads fails exactly when \<open>b53_mdio_op\<close> fails,
  and then with the value \<open>b53_mdio_op\<close> returned. When \<open>b53_mdio_op\<close> returned 0 the read
  returns success whatever the reads of the data registers returned: their returns
  \<open>r\<close>, transport errors included, are not examined but converted as C converts the
  \<open>int\<close> and put together into the value that is handed back. \<open>b53_mdio_read8\<close>
  hands back the low 8 bits of \<open>r\<close>; \<open>b53_mdio_read16\<close> the low 16 bits;
  \<open>b53_mdio_read32\<close> the whole 32 bits of \<open>r0\<close> joined by OR with the 32 bits of \<open>r1\<close>
  shifted left by 16; \<open>b53_mdio_read48\<close> and \<open>b53_mdio_read64\<close> each \<open>r\<close> sign-extended
  to 64 bits, shifted left by 16 times the number of its slot and joined by OR. A
  negative return therefore also sets the bits above its own slot.
\<close>

theorem read_fails_only_with_op:
  "let ret = fst (b53_mdio_op T dev page reg REG_MII_ADDR_READ)
   in (ret \<noteq> 0 \<longrightarrow>
         fst (b53_mdio_read8 T dev page reg) = Inl ret \<and>
         fst (b53_mdio_read16 T dev page reg) = Inl ret \<and>
         fst (b53_mdio_read32 T dev page reg) = Inl ret \<and>
         fst (b53_mdio_read48 T dev page reg) = Inl ret \<and>
         fst (b53_mdio_read64 T dev page reg) = Inl ret) \<and>
      (ret = 0 \<longrightarrow>
         (\<exists>r. slot_reads (issued dev (snd (b53_mdio_read8 T dev page reg))) =
                [MdioRead REG_MII_DATA0 r] \<and>
              fst (b53_mdio_read8 T dev page reg) =
                Inr (ucast ((word_of_int r :: 32 word) AND 0xff))) \<and>
         (\<exists>r. slot_reads (issued dev (snd (b53_mdio_read16 T dev page reg))) =
                [MdioRead REG_MII_DATA0 r] \<and>
              fst (b53_mdio_read16 T dev page reg) = Inr (word_of_int r)) \<and>
         (\<exists>r0 r1. slot_reads (issued dev (snd (b53_mdio_read32 T dev page reg))) =
                [MdioRead REG_MII_DATA0 r0, MdioRead REG_MII_DATA1 r1] \<and>
              fst (b53_mdio_read32 T dev page reg) =
                Inr (word_of_int r0 OR push_bit 16 (word_of_int r1))) \<and>
         (\<exists>r2 r1 r0. slot_reads (issued dev (snd (b53_mdio_read48 T dev page reg))) =
                [MdioRead REG_MII_DATA2 r2, MdioRead REG_MII_DATA1 r1,
                 MdioRead REG_MII_DATA0 r0] \<and>
              fst (b53_mdio_read48 T dev page reg) =
                Inr (push_bit 32 (word_of_int r2) OR push_bit 16 (word_of_int r1) OR
                     word_of_int r0)) \<and>
         (\<exists>r3 r2 r1 r0. slot_reads (issued dev (snd (b53_mdio_read64 T dev page reg))) =
                [MdioRead REG_MII_DATA3 r3, MdioRead REG_MII_DATA2 r2,
                 MdioRead REG_MII_DATA1 r1, MdioRead REG_MII_DATA0 r0] \<and>
              fst (b53_mdio_read64 T dev page reg) =
                Inr (push_bit 48 (word_of_int r3) OR push_bit 32 (word_of_int r2) OR
                     push_bit 16 (word_of_int r1) OR word_of_int r0)))"
  unfolding Let_def
proof (intro conjI impI)
  assume "fst (b53_mdio_op T dev page reg REG_MII_ADDR_READ) = 0"
  note ok = this
  show "\<exists>r. slot_reads (issued dev (snd (b53_mdio_read8 T dev page reg))) =
        [MdioRead REG_MII_DATA0 r] \<and>
      fst (b53_mdio_read8 T dev page reg) = Inr (ucast ((word_of_int r :: 32 word) AND 0xff))"
    using ok by (rule b53_mdio_read8_value)
  show "\<exists>r. slot_reads (issued dev (snd (b53_mdio_read16 T dev page reg))) =
        [MdioRead REG_MII_DATA0 r] \<and>
      fst (b53_mdio_read16 T dev page reg) = Inr (word_of_int r)"
    using ok by (rule b53_mdio_read16_value)
  show "\<exists>r0 r1. slot_reads (issued dev (snd (b53_mdio_read32 T dev page reg))) =
        [MdioRead REG_MII_DATA0 r0, MdioRead REG_MII_DATA1 r1] \<and>
      fst (b53_mdio_read32 T dev page reg) =
        Inr (word_of_int r0 OR push_bit 16 (word_of_int r1))"
    using ok by (rule b53_mdio_read32_value)
  show "\<exists>r2 r1 r0. slot_reads (issued dev (snd (b53_mdio_read48 T dev page reg))) =
        [MdioRead REG_MII_DATA2 r2, MdioRead REG_MII_DATA1 r1, MdioRead REG_MII_DATA0 r0] \<and>
      fst (b53_mdio_read48 T dev page reg) =
        Inr (push_bit 32 (word_of_int r2) OR push_bit 16 (word_of_int r1) OR word_of_int r0)"
    using ok by (rule b53_mdio_read48_value)
  show "\<exists>r3 r2 r1 r0. slot_reads (issued dev (snd (b53_mdio_read64 T dev page reg))) =
        [MdioRead REG_MII_DATA3 r3, MdioRead REG_MII_DATA2 r2, MdioRead REG_MII_DATA1 r1,
         MdioRead REG_MII_DATA0 r0] \<and>
      fst (b53_mdio_read64 T dev page reg) =
        Inr (push_bit 48 (word_of_int r3) OR push_bit 32 (word_of_int r2) OR
             push_bit 16 (word_of_int r1) OR word_of_int r0)"
    using ok by (rule b53_mdio_read64_value)
qed (simp_all add: b53_mdio_read_failed)

theorem read_fails_only_with_op_witness:
  "fst (b53_mdio_op script_ops (script_dev 0xff [0, 0, 0, 0x1234, - 5]) 0 0 REG_MII_ADDR_READ) = 0 \<and>
   (\<exists>r0 r1. slot_reads (issued (script_dev 0xff [0, 0, 0, 0x1234, - 5])
        (snd (b53_mdio_read32 script_ops (script_dev 0xff [0, 0, 0, 0x1234, - 5]) 0 0))) =
        [MdioRead REG_MII_DATA0 r0, MdioRead REG_MII_DATA1 r1] \<and>
      fst (b53_mdio_read32 script_ops (script_dev 0xff [0, 0, 0, 0x1234, - 5]) 0 0) =
        Inr (word_of_int r0 OR push_bit 16 (word_of_int r1))) \<and>
   fst (b53_mdio_op script_ops (script_dev 0xff [- 19]) 0 0 REG_MII_ADDR_READ) = - 19 \<and>
   fst (b53_mdio_read32 script_ops (script_dev 0xff [- 19]) 0 0) = Inl (- 19)"
proof -
  have h1: "fst (b53_mdio_op script_ops (script_dev 0xff [0, 0, 0, 0x1234, - 5]) 0 0
      REG_MII_ADDR_READ) = 0"
    by (simp add: b53_eval)
  have h2: "fst (b53_mdio_op script_ops (script_dev 0xff [- 19]) 0 0 REG_MII_ADDR_READ) = - 19"
    by (simp add: b53_eval)
  show ?thesis
    using h1 h2
      read_fails_only_with_op [of script_ops "script_dev 0xff [0, 0, 0, 0x1234, - 5]" 0 0]
      read_fails_only_with_op [of script_ops "script_dev 0xff [- 19]" 0 0]
    unfolding Let_def by simp
qed

text \<open>
  Claim C2 as it was stated fails on a bus whose read of \<open>REG_MII_DATA1\<close> fails with
  \<open>-EIO\<close> after the operation completed: \<open>b53_mdio_read32\<close> returns success, with the
  error code in the upper half of the value.
\<close>

theorem slot_read_error_swallowed_counterexample:
  "fst (b53_mdio_read32 script_ops (script_dev 0xff [0, 0, 0, 0x1234, - 5]) 0 0) = Inr 0xfffb1234 \<and>
   mii_log (priv (snd (b53_mdio_read32 script_ops (script_dev 0xff [0, 0, 0, 0x1234, - 5]) 0 0))) =
     [MdioWrite REG_MII_PAGE 1 0, MdioWrite REG_MII_ADDR 2 0, MdioRead REG_MII_ADDR 0,
      MdioRead REG_MII_DATA0 0x1234, MdioRead REG_MII_DATA1 (- 5)]"
  by (simp add: b53_eval)

text \<open>
  Claim C3. On the bus without faults whose four data registers keep what was written
  to them, for every handle, page and register, a write of width 8, 16, 32, 48 or 64
  returns 0 and the read of the same width that follows returns the value written; for
  width 48 the value is one that fits in 48 bits. The 8-bit value comes back exactly,
  through the mask \<open>0xff\<close> of \<open>b53_mdio_read8\<close>.
\<close>

theorem write_read_round_trip:
  "fst (b53_mdio_write8 slot_ops dev page reg v8) = 0 \<and>
   fst (b53_mdio_read8 slot_ops (snd (b53_mdio_write8 slot_ops dev page reg v8)) page reg) =
     Inr v8 \<and>
   fst (b53_mdio_write16 slot_ops dev page reg v16) = 0 \<and>
   fst (b53_mdio_read16 slot_ops (snd (b53_mdio_write16 slot_ops dev page reg v16)) page reg) =
     Inr v16 \<and>
   fst (b53_mdio_write32 slot_ops dev page reg v32) = 0 \<and>
   fst (b53_mdio_read32 slot_ops (snd (b53_mdio_write32 slot_ops dev page reg v32)) page reg) =
     Inr v32 \<and>
   (v48 < 2 ^ 48 \<longrightarrow>
      fst (b53_mdio_write48 slot_ops dev page reg v48) = 0 \<and>
      fst (b53_mdio_read48 slot_ops (snd (b53_mdio_write48 slot_ops dev page reg v48)) page reg) =
        Inr v48) \<and>
   fst (b53_mdio_write64 slot_ops dev page reg v64) = 0 \<and>
   fst (b53_mdio_read64 slot_ops (snd (b53_mdio_write64 slot_ops dev page reg v64)) page reg) =
     Inr v64"
  using round_trip8 [of dev page reg v8] round_trip16 [of dev page reg v16]
    round_trip32 [of dev page reg v32] round_trip48 [of v48 dev page reg]
    round_trip64 [of dev page reg v64]
  by blast

theorem write_read_round_trip_witness:
  "(0x123456789abc :: 64 word) < 2 ^ 48 \<and>
   fst (b53_mdio_write48 slot_ops \<lparr>current_page = 0xff, priv = \<lparr>mii_hw = (\<lambda>r. 0), mii_log = []\<rparr>\<rparr>
      1 2 0x123456789abc) = 0 \<and>
   fst (b53_mdio_read48 slot_ops
      (snd (b53_mdio_write48 slot_ops
         \<lparr>current_page = 0xff, priv = \<lparr>mii_hw = (\<lambda>r. 0), mii_log = []\<rparr>\<rparr> 1 2 0x123456789abc))
      1 2) = Inr 0x123456789abc"
proof -
  have h: "(0x123456789abc :: 64 word) < 2 ^ 48"
    by simp
  show ?thesis
    using h
      write_read_round_trip [of "\<lparr>current_page = 0xff, priv = \<lparr>mii_hw = (\<lambda>r. 0), mii_log = []\<rparr>\<rparr>"
        1 2 _ _ _ "0x123456789abc"]
    by simp
qed

text \<open>
  Claim C4, as amended. In a call of \<open>b53_mdio_op\<close> whose writes the bus accepts and
  whose polls all report the operation pending, exactly five polls are made and the
  call returns \<open>-EIO\<close>; no call makes more than five polls. A poll that sees both
  opcode bits clear is the last transaction of its call, and the call returns 0 exactly
  when it ends with such a poll. The value \<open>-EIO\<close> is an errno like the values the bus
  returns: a call that fails although the bus accepted its writes has timed out, but
  the value alone does not tell the time-out from a write refused with \<open>-EIO\<close>.
\<close>

theorem poll_bound_and_timeout:
  "let R = b53_mdio_op T dev page reg op; X = issued dev (snd R)
   in (writes_accepted X \<and> (\<forall>t \<in> set (polls X). op_pending (txn_ret t)) \<longrightarrow>
         fst R = - EIO \<and> length (polls X) = 5) \<and>
      length (polls X) \<le> 5 \<and>
      (\<forall>t \<in> set (butlast X). \<not> is_done_poll t) \<and>
      (fst R = 0 \<longleftrightarrow> X \<noteq> [] \<and> is_done_poll (last X)) \<and>
      (fst R \<noteq> 0 \<and> writes_accepted X \<longrightarrow> fst R = - EIO \<and> length (polls X) = 5)"
proof -
  let ?R = "b53_mdio_op T dev page reg op"
  let ?X = "issued dev (snd ?R)"
  note run = b53_mdio_op_issued(1) [where dev = dev and page = page and reg = reg and op = op and T = T]
  from op_run_polls [OF run]
  consider (refused) "fst ?R \<noteq> 0" "\<not> writes_accepted ?X" "polls ?X = []"
      "\<forall>t \<in> set ?X. \<not> is_done_poll t"
    | (complete) ps c where "fst ?R = 0" "polls ?X = map (MdioRead REG_MII_ADDR) (ps @ [c])"
      "length ps < 5" "\<not> op_pending c" "last ?X = MdioRead REG_MII_ADDR c" "?X \<noteq> []"
      "\<forall>t \<in> set (butlast ?X). \<not> is_done_poll t"
    | (timeout) ps where "fst ?R = - EIO" "polls ?X = map (MdioRead REG_MII_ADDR) ps"
      "length ps = 5" "?X \<noteq> []" "\<forall>t \<in> set ?X. \<not> is_done_poll t"
    by blast
  then show ?thesis
  proof cases
    case refused
    then show ?thesis
      by (auto simp: Let_def dest: in_set_butlastD)
  next
    case complete
    then show ?thesis
      by (auto simp: Let_def)
  next
    case timeout
    then have "\<not> is_done_poll (last ?X)"
      using last_in_set by blast
    then show ?thesis
      using timeout by (auto simp: Let_def EIO_def dest: in_set_butlastD)
  qed
qed

theorem poll_bound_and_timeout_witness:
  "issued (script_dev 0 [0, 3, 1, 2, 3, 1, 0])
      (snd (b53_mdio_op script_ops (script_dev 0 [0, 3, 1, 2, 3, 1, 0]) 0 9 REG_MII_ADDR_READ)) =
     [MdioWrite REG_MII_ADDR 0x902 0, MdioRead REG_MII_ADDR 3, MdioRead REG_MII_ADDR 1,
      MdioRead REG_MII_ADDR 2, MdioRead REG_MII_ADDR 3, MdioRead REG_MII_ADDR 1] \<and>
   fst (b53_mdio_op script_ops (script_dev 0 [0, 3, 1, 2, 3, 1, 0]) 0 9 REG_MII_ADDR_READ) = - EIO \<and>
   issued (script_dev 0 [0, 3, 0x900])
      (snd (b53_mdio_op script_ops (script_dev 0 [0, 3, 0x900]) 0 9 REG_MII_ADDR_READ)) =
     [MdioWrite REG_MII_ADDR 0x902 0, MdioRead REG_MII_ADDR 3, MdioRead REG_MII_ADDR 0x900] \<and>
   fst (b53_mdio_op script_ops (script_dev 0 [0, 3, 0x900]) 0 9 REG_MII_ADDR_READ) = 0"
proof -
  let ?L1 = "[MdioWrite REG_MII_ADDR 0x902 0, MdioRead REG_MII_ADDR 3, MdioRead REG_MII_ADDR 1,
      MdioRead REG_MII_ADDR 2, MdioRead REG_MII_ADDR 3, MdioRead REG_MII_ADDR 1]"
  let ?L2 = "[MdioWrite REG_MII_ADDR 0x902 0, MdioRead REG_MII_ADDR 3, MdioRead REG_MII_ADDR 0x900]"
  have h1: "issued (script_dev 0 [0, 3, 1, 2, 3, 1, 0])
      (snd (b53_mdio_op script_ops (script_dev 0 [0, 3, 1, 2, 3, 1, 0]) 0 9 REG_MII_ADDR_READ)) = ?L1"
    by (simp add: b53_eval)
  have h2: "issued (script_dev 0 [0, 3, 0x900])
      (snd (b53_mdio_op script_ops (script_dev 0 [0, 3, 0x900]) 0 9 REG_MII_ADDR_READ)) = ?L2"
    by (simp add: b53_eval)
  have p1: "writes_accepted ?L1 \<and> (\<forall>t \<in> set (polls ?L1). op_pending (txn_ret t))"
    by (simp add: op_pending_iff)
  have p2: "?L2 \<noteq> [] \<and> is_done_poll (last ?L2)"
    by (simp add: op_pending_iff)
  have r1: "fst (b53_mdio_op script_ops (script_dev 0 [0, 3, 1, 2, 3, 1, 0]) 0 9 REG_MII_ADDR_READ)
      = - EIO"
    using p1
      poll_bound_and_timeout [of script_ops "script_dev 0 [0, 3, 1, 2, 3, 1, 0]" 0 9 REG_MII_ADDR_READ]
    unfolding Let_def h1 by blast
  have r2: "fst (b53_mdio_op script_ops (script_dev 0 [0, 3, 0x900]) 0 9 REG_MII_ADDR_READ) = 0"
    using p2
      poll_bound_and_timeout [of script_ops "script_dev 0 [0, 3, 0x900]" 0 9 REG_MII_ADDR_READ]
    unfolding Let_def h2 by blast
  show ?thesis
    using h1 h2 r1 r2 by simp
qed

text \<open>
  Claim C4 as it was stated, with a time-out error distinct from any transport error,
  fails on two buses. On one that refuses the address write with \<open>-EIO\<close>,
  \<open>b53_mdio_op\<close> returns \<open>-EIO\<close>, the value of the time-out, without a single poll. On
  one whose polls all fail with \<open>-EIO\<close> (a value with both opcode bits set when cut to
  16 bits), \<open>b53_mdio_op\<close> makes five polls and returns \<open>-EIO\<close>, the very error of the
  transport.
\<close>

theorem timeout_code_not_distinct_counterexample:
  "fst (b53_mdio_op script_ops (script_dev 0xff [0, - 5]) 0 0 REG_MII_ADDR_READ) = - EIO \<and>
   mii_log (priv (snd (b53_mdio_op script_ops (script_dev 0xff [0, - 5]) 0 0 REG_MII_ADDR_READ))) =
     [MdioWrite REG_MII_PAGE 1 0, MdioWrite REG_MII_ADDR 2 (- 5)] \<and>
   fst (b53_mdio_op script_ops (script_dev 0xff [0, 0, - 5, - 5, - 5, - 5, - 5]) 0 0
      REG_MII_ADDR_READ) = - EIO \<and>
   mii_log (priv (snd (b53_mdio_op script_ops (script_dev 0xff [0, 0, - 5, - 5, - 5, - 5, - 5]) 0 0
      REG_MII_ADDR_READ))) =
     [MdioWrite REG_MII_PAGE 1 0, MdioWrite REG_MII_ADDR 2 0, MdioRead REG_MII_ADDR (- 5),
      MdioRead REG_MII_ADDR (- 5), MdioRead REG_MII_ADDR (- 5), MdioRead REG_MII_ADDR (- 5),
      MdioRead REG_MII_ADDR (- 5)]"
  by (simp add: b53_eval)

text \<open>
  Claim C5. In a call of any entry, a write to a data register that the bus refuses
  (a non-zero return) ends the call: the call returns that value, the refused write is
  the last transaction, and the whole traffic of the call consists of writes to data
  registers, so that no write to \<open>REG_MII_ADDR\<close>, the trigger, is issued.
\<close>

theorem refused_staging_write_aborts:
  "let R = b53_mdio_ops T rq dev page reg; X = issued dev (snd R)
   in \<forall>t \<in> set X. is_slot_write t \<and> txn_ret t \<noteq> 0 \<longrightarrow>
        fst R = txn_ret t \<and> last X = t \<and>
        (\<forall>u \<in> set X. is_slot_write u \<and> \<not> is_write_to REG_MII_ADDR u)"
proof -
  note run = b53_mdio_ops_issued(1) [where dev = dev and page = page and reg = reg and rq = rq and T = T]
  have "\<not> is_write_to REG_MII_ADDR u" if "is_slot_write u" for u
    using that by (cases u) auto
  then show ?thesis
    unfolding Let_def
    using access_run_stage_refused [OF run] by blast
qed

theorem refused_staging_write_aborts_witness:
  "issued (script_dev 0xff [0, - 5])
      (snd (b53_mdio_ops script_ops (Write32 0xabcd1234) (script_dev 0xff [0, - 5]) 2 6)) =
     [MdioWrite REG_MII_DATA0 0x1234 0, MdioWrite REG_MII_DATA1 0xabcd (- 5)] \<and>
   fst (b53_mdio_ops script_ops (Write32 0xabcd1234) (script_dev 0xff [0, - 5]) 2 6) = - 5"
proof -
  have h: "issued (script_dev 0xff [0, - 5])
      (snd (b53_mdio_ops script_ops (Write32 0xabcd1234) (script_dev 0xff [0, - 5]) 2 6)) =
     [MdioWrite REG_MII_DATA0 0x1234 0, MdioWrite REG_MII_DATA1 0xabcd (- 5)]"
    by (simp add: b53_eval)
  show ?thesis
    using h
      refused_staging_write_aborts [of script_ops "Write32 0xabcd1234" "script_dev 0xff [0, - 5]" 2 6]
    by (simp add: Let_def b53_regs is_slot_def)
qed

text \<open>
  Claim C6, as amended. A write entry of width \<open>N\<close> whose staging writes the bus accepts begins its
  traffic with exactly \<open>ceil(N/16)\<close> writes to the data registers, in ascending order
  from \<open>REG_MII_DATA0\<close>, the \<open>i\<close>-th carrying \<open>(value >> (16*i)) & 0xffff\<close>; nothing after
  them writes a data register, and the accepted trigger write of a call that returns 0
  comes after them. In particular \<open>b53_mdio_write64\<close> of \<open>0x0000000000010002\<close> stages
  \<open>0x0002\<close>, \<open>0x0001\<close>, \<open>0x0000\<close>, \<open>0x0000\<close> in the data registers 0 to 3, in that order.
\<close>

theorem staging_writes_in_order:
  "(let R = b53_mdio_ops T rq dev page reg; X = issued dev (snd R);
        n = (req_width rq + 15) div 16
    in is_write_req rq \<and> slot_writes_accepted X \<longrightarrow>
         take n X =
           map (\<lambda>i. MdioWrite (REG_MII_DATA0 + int i)
                  (ucast (drop_bit (16 * i) (req_value rq) AND 0xffff)) 0) [0..<n] \<and>
         (\<forall>t \<in> set (drop n X). \<not> is_slot_write t) \<and>
         (fst R = 0 \<longrightarrow>
            MdioWrite REG_MII_ADDR (push_bit 8 (ucast reg) OR REG_MII_ADDR_WRITE) 0
              \<in> set (drop n X))) \<and>
   (let X = issued dev (snd (b53_mdio_write64 T dev page reg 0x0000000000010002))
    in slot_writes_accepted X \<longrightarrow>
         take 4 X =
           [MdioWrite REG_MII_DATA0 0x0002 0, MdioWrite REG_MII_DATA1 0x0001 0,
            MdioWrite REG_MII_DATA2 0x0000 0, MdioWrite REG_MII_DATA3 0x0000 0])"
proof -
  have general: "take ((req_width rq + 15) div 16) X =
      map (\<lambda>i. MdioWrite (REG_MII_DATA0 + int i)
             (ucast (drop_bit (16 * i) (req_value rq) AND 0xffff)) 0)
        [0..<(req_width rq + 15) div 16] \<and>
      (\<forall>t \<in> set (drop ((req_width rq + 15) div 16) X). \<not> is_slot_write t) \<and>
      (fst (b53_mdio_ops T rq dev page reg) = 0 \<longrightarrow>
         MdioWrite REG_MII_ADDR (push_bit 8 (ucast reg) OR REG_MII_ADDR_WRITE) 0
           \<in> set (drop ((req_width rq + 15) div 16) X))"
    if w: "is_write_req rq" and X: "X = issued dev (snd (b53_mdio_ops T rq dev page reg))"
      and acc: "slot_writes_accepted X"
    for rq X
  proof -
    note run = b53_mdio_ops_issued(1)
      [where dev = dev and page = page and reg = reg and rq = rq and T = T]
    have op: "req_op rq = REG_MII_ADDR_WRITE"
      using w by (cases rq) simp_all
    have acc': "slot_writes_accepted (issued dev (snd (b53_mdio_ops T rq dev page reg)))"
      using acc X by simp
    show ?thesis
      using access_run_staged_first [OF run acc' length_req_slots]
      unfolding staged_req_slots [OF w] length_req_slots_width [OF w] op X .
  qed
  have example: "take 4 X =
      [MdioWrite REG_MII_DATA0 0x0002 0, MdioWrite REG_MII_DATA1 0x0001 0,
       MdioWrite REG_MII_DATA2 0x0000 0, MdioWrite REG_MII_DATA3 0x0000 0]"
    if X: "X = issued dev (snd (b53_mdio_write64 T dev page reg 0x0000000000010002))"
      and acc: "slot_writes_accepted X"
    for X
  proof -
    have "X = issued dev (snd (b53_mdio_ops T (Write64 0x10002) dev page reg))"
      using X by simp
    then have "take ((req_width (Write64 0x10002) + 15) div 16) X =
      map (\<lambda>i. MdioWrite (REG_MII_DATA0 + int i)
             (ucast (drop_bit (16 * i) (req_value (Write64 0x10002)) AND 0xffff)) 0)
        [0..<(req_width (Write64 0x10002) + 15) div 16]"
      using general [of "Write64 0x10002" X] acc by simp
    then show ?thesis
      by (simp add: upt_small b53_regs)
  qed
  show ?thesis
    unfolding Let_def
  proof (intro conjI impI)
    assume "slot_writes_accepted
      (issued dev (snd (b53_mdio_write64 T dev page reg 0x0000000000010002)))"
    then show "take 4 (issued dev (snd (b53_mdio_write64 T dev page reg 0x0000000000010002))) =
      [MdioWrite REG_MII_DATA0 0x0002 0, MdioWrite REG_MII_DATA1 0x0001 0,
       MdioWrite REG_MII_DATA2 0x0000 0, MdioWrite REG_MII_DATA3 0x0000 0]"
      using example by simp
  qed (use general in blast)+
qed

theorem staging_writes_in_order_witness:
  "slot_writes_accepted
     (issued (script_dev 0xff []) (snd (b53_mdio_write64 script_ops (script_dev 0xff []) 3 7 0x10002))) \<and>
   take 4 (issued (script_dev 0xff [])
       (snd (b53_mdio_write64 script_ops (script_dev 0xff []) 3 7 0x10002))) =
     [MdioWrite REG_MII_DATA0 0x0002 0, MdioWrite REG_MII_DATA1 0x0001 0,
      MdioWrite REG_MII_DATA2 0x0000 0, MdioWrite REG_MII_DATA3 0x0000 0] \<and>
   slot_writes_accepted
     (issued (script_dev 0xff [])
        (snd (b53_mdio_ops script_ops (Write48 0xa1b2c3d4e5f6) (script_dev 0xff []) 3 7))) \<and>
   take 3 (issued (script_dev 0xff [])
       (snd (b53_mdio_ops script_ops (Write48 0xa1b2c3d4e5f6) (script_dev 0xff []) 3 7))) =
     [MdioWrite REG_MII_DATA0 0xe5f6 0, MdioWrite REG_MII_DATA1 0xc3d4 0,
      MdioWrite REG_MII_DATA2 0xa1b2 0]"
proof -
  have h1: "slot_writes_accepted
     (issued (script_dev 0xff []) (snd (b53_mdio_write64 script_ops (script_dev 0xff []) 3 7 0x10002)))"
    by (simp add: b53_eval)
  have h2: "slot_writes_accepted
     (issued (script_dev 0xff [])
        (snd (b53_mdio_ops script_ops (Write48 0xa1b2c3d4e5f6) (script_dev 0xff []) 3 7)))"
    by (simp add: b53_eval)
  show ?thesis
    using h1 h2
      staging_writes_in_order [of script_ops "Write48 0xa1b2c3d4e5f6" "script_dev 0xff []" 3 7]
    by (simp add: Let_def upt_small b53_regs)
qed

text \<open>
  Claim C6 as it was stated, for every write, fails on a bus that refuses the write to
  \<open>REG_MII_DATA0\<close>: \<open>b53_mdio_write64\<close> of \<open>0x0000000000010002\<close> returns the code of the
  bus after that one write, and slots 1 to 3 are never staged.
\<close>

theorem staging_cut_short_counterexample:
  "fst (b53_mdio_write64 script_ops (script_dev 0xff [- 5]) 3 7 0x0000000000010002) = - 5 \<and>
   mii_log (priv (snd (b53_mdio_write64 script_ops (script_dev 0xff [- 5]) 3 7
      0x0000000000010002))) =
     [MdioWrite REG_MII_DATA0 0x0002 (- 5)]"
  by (simp add: b53_eval)




text \<open>
  Claim C8. In a call of any entry: when the write to \<open>REG_MII_PAGE\<close> is refused, the
  call returns its value and \<open>current_page\<close> is what it was; when the write to
  \<open>REG_MII_ADDR\<close> is refused, the call returns its value and \<open>current_page\<close> is the page
  asked for (the page selected before is not rolled back); and \<open>current_page\<close> changes
  only to the page asked for and only when the bus accepted a write of it to
  \<open>REG_MII_PAGE\<close>.
\<close>

theorem page_cache_follows_select:
  "let R = b53_mdio_ops T rq dev page reg; X = issued dev (snd R)
   in (\<forall>t \<in> set X. is_write_to REG_MII_PAGE t \<and> txn_ret t \<noteq> 0 \<longrightarrow>
         fst R = txn_ret t \<and> current_page (snd R) = current_page dev) \<and>
      (\<forall>t \<in> set X. is_write_to REG_MII_ADDR t \<and> txn_ret t \<noteq> 0 \<longrightarrow>
         fst R = txn_ret t \<and> current_page (snd R) = page) \<and>
      (current_page (snd R) \<noteq> current_page dev \<longrightarrow>
         current_page (snd R) = page \<and>
         MdioWrite REG_MII_PAGE (push_bit 8 (ucast page) OR REG_MII_PAGE_ENABLE) 0 \<in> set X)"
proof -
  note run = b53_mdio_ops_issued(1) [where dev = dev and page = page and reg = reg and rq = rq and T = T]
  show ?thesis
    unfolding Let_def
    using access_run_select_refused [OF run] access_run_addr_refused [OF run]
      access_run_cp_changed [OF run]
    by blast
qed

theorem page_cache_follows_select_witness:
  "issued (script_dev 3 [- 110]) (snd (b53_mdio_ops script_ops Read16 (script_dev 3 [- 110]) 7 1)) =
     [MdioWrite REG_MII_PAGE 0x701 (- 110)] \<and>
   fst (b53_mdio_ops script_ops Read16 (script_dev 3 [- 110]) 7 1) = - 110 \<and>
   current_page (snd (b53_mdio_ops script_ops Read16 (script_dev 3 [- 110]) 7 1)) = 3 \<and>
   issued (script_dev 3 [0, - 110]) (snd (b53_mdio_ops script_ops Read16 (script_dev 3 [0, - 110]) 7 1)) =
     [MdioWrite REG_MII_PAGE 0x701 0, MdioWrite REG_MII_ADDR 0x102 (- 110)] \<and>
   fst (b53_mdio_ops script_ops Read16 (script_dev 3 [0, - 110]) 7 1) = - 110 \<and>
   current_page (snd (b53_mdio_ops script_ops Read16 (script_dev 3 [0, - 110]) 7 1)) = 7"
proof -
  have h1: "issued (script_dev 3 [- 110])
      (snd (b53_mdio_ops script_ops Read16 (script_dev 3 [- 110]) 7 1)) =
     [MdioWrite REG_MII_PAGE 0x701 (- 110)]"
    by (simp add: b53_eval)
  have h2: "issued (script_dev 3 [0, - 110])
      (snd (b53_mdio_ops script_ops Read16 (script_dev 3 [0, - 110]) 7 1)) =
     [MdioWrite REG_MII_PAGE 0x701 0, MdioWrite REG_MII_ADDR 0x102 (- 110)]"
    by (simp add: b53_eval)
  show ?thesis
    using h1 h2
      page_cache_follows_select [of script_ops Read16 "script_dev 3 [- 110]" 7 1]
      page_cache_follows_select [of script_ops Read16 "script_dev 3 [0, - 110]" 7 1]
    by (simp add: Let_def script_dev_def)
qed

text \<open>
  Claim C9, as amended. The \<open>int\<close> a poll returns is never handed on: once a poll has
  been made the call returns 0 or \<open>-EIO\<close>. A negative return is cut to 16 bits and read
  as the status: a code that is not a multiple of 4 (\<open>-EIO = -5\<close>, \<open>-ETIMEDOUT = -110\<close>)
  has the READ or the WRITE bit and counts as pending, so that polls which all fail
  with such codes end in \<open>-EIO\<close> after five polls; a code that is a multiple of 4
  (\<open>-EBUSY = -16\<close>, \<open>-ENOMEM = -12\<close>, \<open>-EINTR = -4\<close>) has both bits clear, ends the loop
  at once and makes the call return 0.
\<close>

theorem failed_poll_read_as_status:
  "let R = b53_mdio_op T dev page reg op; X = issued dev (snd R)
   in (polls X \<noteq> [] \<longrightarrow> fst R = 0 \<or> fst R = - EIO) \<and>
      (writes_accepted X \<and> (\<forall>t \<in> set (polls X). txn_ret t < 0 \<and> \<not> 4 dvd txn_ret t) \<longrightarrow>
         fst R = - EIO \<and> length (polls X) = 5) \<and>
      (\<forall>t \<in> set (polls X). txn_ret t < 0 \<and> 4 dvd txn_ret t \<longrightarrow> fst R = 0 \<and> last X = t)"
proof -
  let ?R = "b53_mdio_op T dev page reg op"
  let ?X = "issued dev (snd ?R)"
  note run = b53_mdio_op_issued(1) [where dev = dev and page = page and reg = reg and op = op and T = T]
  from op_run_polls [OF run]
  consider (refused) "fst ?R \<noteq> 0" "\<not> writes_accepted ?X" "polls ?X = []"
    | (complete) ps c where "fst ?R = 0" "polls ?X = map (MdioRead REG_MII_ADDR) (ps @ [c])"
      "\<forall>r \<in> set ps. op_pending r" "\<not> op_pending c" "last ?X = MdioRead REG_MII_ADDR c"
    | (timeout) ps where "fst ?R = - EIO" "polls ?X = map (MdioRead REG_MII_ADDR) ps"
      "length ps = 5" "\<forall>r \<in> set ps. op_pending r"
    by blast
  then have
    "(polls ?X \<noteq> [] \<longrightarrow> fst ?R = 0 \<or> fst ?R = - EIO) \<and>
     (writes_accepted ?X \<and> (\<forall>t \<in> set (polls ?X). op_pending (txn_ret t)) \<longrightarrow>
        fst ?R = - EIO \<and> length (polls ?X) = 5) \<and>
     (\<forall>t \<in> set (polls ?X). \<not> op_pending (txn_ret t) \<longrightarrow> fst ?R = 0 \<and> last ?X = t)"
  proof cases
    case refused
    then show ?thesis
      by simp
  next
    case complete
    have "t = MdioRead REG_MII_ADDR c"
      if "t \<in> set (polls ?X)" "\<not> op_pending (txn_ret t)" for t
      using that complete(2,3) by auto
    then show ?thesis
      using complete by auto
  next
    case timeout
    have "op_pending (txn_ret t)" if "t \<in> set (polls ?X)" for t
      using that timeout(2,4) by auto
    then show ?thesis
      using timeout by auto
  qed
  then show ?thesis
    unfolding Let_def op_pending_iff by blast
qed

theorem failed_poll_read_as_status_witness:
  "issued (script_dev 4 [0, - 5, - 110, - 5, - 110, - 5])
      (snd (b53_mdio_op script_ops (script_dev 4 [0, - 5, - 110, - 5, - 110, - 5]) 4 1
         REG_MII_ADDR_WRITE)) =
     [MdioWrite REG_MII_ADDR 0x101 0, MdioRead REG_MII_ADDR (- 5), MdioRead REG_MII_ADDR (- 110),
      MdioRead REG_MII_ADDR (- 5), MdioRead REG_MII_ADDR (- 110), MdioRead REG_MII_ADDR (- 5)] \<and>
   fst (b53_mdio_op script_ops (script_dev 4 [0, - 5, - 110, - 5, - 110, - 5]) 4 1
      REG_MII_ADDR_WRITE) = - EIO \<and>
   issued (script_dev 4 [0, - 5, - 12])
      (snd (b53_mdio_op script_ops (script_dev 4 [0, - 5, - 12]) 4 1 REG_MII_ADDR_WRITE)) =
     [MdioWrite REG_MII_ADDR 0x101 0, MdioRead REG_MII_ADDR (- 5), MdioRead REG_MII_ADDR (- 12)] \<and>
   fst (b53_mdio_op script_ops (script_dev 4 [0, - 5, - 12]) 4 1 REG_MII_ADDR_WRITE) = 0"
proof -
  let ?L1 = "[MdioWrite REG_MII_ADDR 0x101 0, MdioRead REG_MII_ADDR (- 5),
      MdioRead REG_MII_ADDR (- 110), MdioRead REG_MII_ADDR (- 5), MdioRead REG_MII_ADDR (- 110),
      MdioRead REG_MII_ADDR (- 5)]"
  let ?L2 = "[MdioWrite REG_MII_ADDR 0x101 0, MdioRead REG_MII_ADDR (- 5),
      MdioRead REG_MII_ADDR (- 12)]"
  have h1: "issued (script_dev 4 [0, - 5, - 110, - 5, - 110, - 5])
      (snd (b53_mdio_op script_ops (script_dev 4 [0, - 5, - 110, - 5, - 110, - 5]) 4 1
         REG_MII_ADDR_WRITE)) = ?L1"
    by (simp add: b53_eval)
  have h2: "issued (script_dev 4 [0, - 5, - 12])
      (snd (b53_mdio_op script_ops (script_dev 4 [0, - 5, - 12]) 4 1 REG_MII_ADDR_WRITE)) = ?L2"
    by (simp add: b53_eval)
  have p1: "writes_accepted ?L1 \<and>
      (\<forall>t \<in> set (polls ?L1). txn_ret t < 0 \<and> \<not> 4 dvd txn_ret t)"
    by simp
  have p2: "MdioRead REG_MII_ADDR (- 12) \<in> set (polls ?L2) \<and>
      txn_ret (MdioRead REG_MII_ADDR (- 12)) < 0 \<and> 4 dvd txn_ret (MdioRead REG_MII_ADDR (- 12))"
    by simp
  have r1: "fst (b53_mdio_op script_ops (script_dev 4 [0, - 5, - 110, - 5, - 110, - 5]) 4 1
      REG_MII_ADDR_WRITE) = - EIO"
    using p1
      failed_poll_read_as_status
        [of script_ops "script_dev 4 [0, - 5, - 110, - 5, - 110, - 5]" 4 1 REG_MII_ADDR_WRITE]
    unfolding Let_def h1 by blast
  have r2: "fst (b53_mdio_op script_ops (script_dev 4 [0, - 5, - 12]) 4 1 REG_MII_ADDR_WRITE) = 0"
    using p2
      failed_poll_read_as_status [of script_ops "script_dev 4 [0, - 5, - 12]" 4 1 REG_MII_ADDR_WRITE]
    unfolding Let_def h2 by blast
  show ?thesis
    using h1 h2 r1 r2 by simp
qed

text \<open>
  Claim C9 as it was stated fails on a bus whose polls all fail with \<open>-EBUSY\<close>: the first
  poll ends the loop and \<open>b53_mdio_op\<close> returns 0.
\<close>

theorem failed_poll_taken_as_done_counterexample:
  "fst (b53_mdio_op script_ops (script_dev 0xff [0, 0, - 16, - 16, - 16, - 16, - 16]) 0 0
      REG_MII_ADDR_READ) = 0 \<and>
   mii_log (priv (snd (b53_mdio_op script_ops
      (script_dev 0xff [0, 0, - 16, - 16, - 16, - 16, - 16]) 0 0 REG_MII_ADDR_READ))) =
     [MdioWrite REG_MII_PAGE 1 0, MdioWrite REG_MII_ADDR 2 0, MdioRead REG_MII_ADDR (- 16)]"
  by (simp add: b53_eval)

text \<open>
  Claim C10. When any of the ten entries returns 0, \<open>current_page\<close> is the page that
  was asked for, and a call of any entry for the same page that follows on the same
  handle issues no write to \<open>REG_MII_PAGE\<close>.
\<close>

theorem success_leaves_page_cached:
  assumes "fst (b53_mdio_ops T rq dev page reg) = 0"
  shows "current_page (snd (b53_mdio_ops T rq dev page reg)) = page \<and>
    page_selects (issued (snd (b53_mdio_ops T rq dev page reg))
      (snd (b53_mdio_ops T rq' (snd (b53_mdio_ops T rq dev page reg)) page reg'))) = []"
proof -
  let ?dev1 = "snd (b53_mdio_ops T rq dev page reg)"
  have cp: "current_page ?dev1 = page"
    using b53_mdio_ops_issued(1) [where dev = dev and page = page and reg = reg and rq = rq and T = T] assms
    by (auto dest: access_run_success)
  then show ?thesis
    using access_run_page_selects_cached [OF b53_mdio_ops_issued(1) [where dev = ?dev1 and page = page and reg = reg' and rq = rq' and T = T]]
    by simp
qed

theorem success_leaves_page_cached_witness:
  "fst (b53_mdio_ops script_ops (Write32 0x12345678) (script_dev 0xff []) 2 4) = 0 \<and>
   current_page (snd (b53_mdio_ops script_ops (Write32 0x12345678) (script_dev 0xff []) 2 4)) = 2 \<and>
   page_selects (issued (snd (b53_mdio_ops script_ops (Write32 0x12345678) (script_dev 0xff []) 2 4))
      (snd (b53_mdio_ops script_ops Read16
         (snd (b53_mdio_ops script_ops (Write32 0x12345678) (script_dev 0xff []) 2 4)) 2 6))) = []"
proof -
  have h: "fst (b53_mdio_ops script_ops (Write32 0x12345678) (script_dev 0xff []) 2 4) = 0"
    by (simp add: b53_eval)
  show ?thesis
    using h success_leaves_page_cached [OF h, of Read16 6] by simp
qed

end
